theory Spec2Isabelle
  imports Main "HOL-Library.Word"
begin

unbundle bit_operations_syntax

section \<open>Machine integers, faults\<close>

type_synonym u16 = "16 word"
type_synonym u32 = "32 word"

text \<open>
  The C++ source has no error values of its own: what can go wrong is undefined behaviour
  (a read through a dangling or null pointer, an index outside a container), a failed
  \<open>assert\<close>, and \<open>std::vector::at\<close> throwing. Each is a branch of the model. Loops whose
  termination depends on the absent \<open>Patch\<close> class take fuel.
\<close>

datatype fault = Undefined_Behaviour | Assertion_Failed | Out_Of_Range | Out_Of_Fuel

type_synonym 'a result = "fault + 'a"

definition bind :: "'a result \<Rightarrow> ('a \<Rightarrow> 'b result) \<Rightarrow> 'b result" where
  "bind m f = (case m of Inl e \<Rightarrow> Inl e | Inr x \<Rightarrow> f x)"

section \<open>Point, Range, ClipResult\<close>

datatype Point = Point (row: u32) (column: u32)

datatype Range = Range (range_start: Point) (range_end: Point)

datatype ClipResult = ClipResult (position: Point) (offset: u32)

text \<open>
  Modelled from the spec: \<open>point.h\<close> is missing from src/. Section 3.1 of the spec:
  points are ordered lexicographically; \<open>traverse(a, b)\<close> is \<open>(a.row, a.column + b.column)\<close>
  if \<open>b.row == 0\<close>, else \<open>(a.row + b.row, b.column)\<close>; \<open>traversal(a, b)\<close> is the point \<open>p\<close>
  with \<open>traverse(b, p) == a\<close>; \<open>Range.extent() = traversal(end, start)\<close>.
\<close>

definition point_less :: "Point \<Rightarrow> Point \<Rightarrow> bool" where
  "point_less a b \<longleftrightarrow> row a < row b \<or> (row a = row b \<and> column a < column b)"

definition point_le :: "Point \<Rightarrow> Point \<Rightarrow> bool" where
  "point_le a b \<longleftrightarrow> a = b \<or> point_less a b"

definition point_min :: "Point \<Rightarrow> Point \<Rightarrow> Point" where
  "point_min a b = (if point_le a b then a else b)"

definition traverse :: "Point \<Rightarrow> Point \<Rightarrow> Point" where
  "traverse a b =
     (if row b = 0 then Point (row a) (column a + column b)
      else Point (row a + row b) (column b))"

definition traversal :: "Point \<Rightarrow> Point \<Rightarrow> Point" where
  "traversal a b =
     (if row a = row b then Point 0 (column a - column b)
      else Point (row a - row b) (column a))"

definition range_extent :: "Range \<Rightarrow> Point" where
  "range_extent r = traversal (range_end r) (range_start r)"

section \<open>Text and TextSlice\<close>

text \<open>
  Modelled from the spec: \<open>text.h\<close> and \<open>text.cc\<close> are missing from src/. A text is its
  sequence of UTF-16 code units, with \<open>size()\<close> and \<open>extent()\<close> (spec 6.2); the row of a
  point counts the LFs before it and the column the code units since the last of them
  (spec 3.1).
\<close>

type_synonym Text = "u16 list"

definition LF :: u16 where "LF = 0x0A"
definition CR :: u16 where "CR = 0x0D"

definition Text_size :: "Text \<Rightarrow> u32" where
  "Text_size t = of_nat (length t)"

definition line_breaks :: "Text \<Rightarrow> nat" where
  "line_breaks t = length (filter (\<lambda>c. c = LF) t)"

definition last_row_length :: "Text \<Rightarrow> nat" where
  "last_row_length t = length (takeWhile (\<lambda>c. c \<noteq> LF) (rev t))"

definition Text_extent :: "Text \<Rightarrow> Point" where
  "Text_extent t = Point (of_nat (line_breaks t)) (of_nat (last_row_length t))"

text \<open>
  Modelled from the spec: \<open>Text::clip_position\<close> (\<open>text.cc\<close> is missing from src/). A
  point whose row is past the last row clips to the end of the text, a column past the
  end of its row to the end of the row (spec 7). The length of a row does not count its
  terminator, LF or CRLF (spec 3.1, invariant 8.1.6 and scenario 8.3.2: in \<open>abc\r\ndef\<close>
  the point \<open>(0,4)\<close> clips to \<open>((0,3), 3)\<close>). A point between the two code units of a
  surrogate pair snaps to a boundary of the pair (spec 4.1 and 7, "mid-surrogate"); the
  spec says "nearest" and both are one unit away, so the point snaps back to the start
  of the pair, as a point on the LF of a CRLF pair snaps back to the CR. \<open>row_start\<close> is
  the offset at which a row begins, \<open>row_length\<close> the length of the row that begins a
  text, \<open>splits_pair t n\<close> says that offset \<open>n\<close> lies between the two units of a
  surrogate pair and \<open>on_LF_of_crlf t n\<close> that it lies between a CR and its LF.
\<close>

fun row_start :: "Text \<Rightarrow> nat \<Rightarrow> nat option" where
  "row_start t 0 = Some 0"
| "row_start [] (Suc r) = None"
| "row_start (c # cs) (Suc r) = map_option Suc (row_start cs (if c = LF then r else Suc r))"

fun row_length :: "Text \<Rightarrow> nat" where
  "row_length [] = 0"
| "row_length (c # cs) =
     (if c = LF \<or> (c = CR \<and> take 1 cs = [LF]) then 0 else Suc (row_length cs))"

definition leading_surrogate :: "u16 \<Rightarrow> bool" where
  "leading_surrogate c \<longleftrightarrow> 0xD800 \<le> c \<and> c \<le> 0xDBFF"

definition trailing_surrogate :: "u16 \<Rightarrow> bool" where
  "trailing_surrogate c \<longleftrightarrow> 0xDC00 \<le> c \<and> c \<le> 0xDFFF"

definition splits_pair :: "Text \<Rightarrow> nat \<Rightarrow> bool" where
  "splits_pair t n \<longleftrightarrow>
     0 < n \<and> n < length t \<and> leading_surrogate (t ! (n - 1)) \<and> trailing_surrogate (t ! n)"


definition Text_clip_position :: "Text \<Rightarrow> Point \<Rightarrow> ClipResult" where
  "Text_clip_position t p =
     (case row_start t (unat (row p)) of
        None \<Rightarrow> ClipResult (Text_extent t) (Text_size t)
      | Some s \<Rightarrow>
          let c = min (unat (column p)) (row_length (drop s t));
              c = (if splits_pair t (s + c) then c - 1 else c)
          in ClipResult (Point (row p) (of_nat c)) (of_nat (s + c)))"

text \<open>
  Modelled from the spec: the offset of a point is the offset of its clipped position;
  the position of an offset is the extent of the text before it (spec 6.2 names
  \<open>position_for_offset\<close> and says no more).
\<close>

definition Text_offset_for_position :: "Text \<Rightarrow> Point \<Rightarrow> nat" where
  "Text_offset_for_position t p = unat (offset (Text_clip_position t p))"

definition Text_position_for_offset :: "Text \<Rightarrow> nat \<Rightarrow> Point" where
  "Text_position_for_offset t n = Text_extent (take n t)"

text \<open>
  Modelled from the spec: \<open>Text::at(Point)\<close> (\<open>text.cc\<close> is missing from src/) is the code
  unit at that row and column; a point that names no code unit of the text is a read
  outside the buffer.
\<close>

definition Text_at :: "Text \<Rightarrow> Point \<Rightarrow> u16 result" where
  "Text_at t p =
     (case row_start t (unat (row p)) of
        None \<Rightarrow> Inl Undefined_Behaviour
      | Some s \<Rightarrow>
          if s + unat (column p) < length t then Inr (t ! (s + unat (column p)))
          else Inl Undefined_Behaviour)"

text \<open>
  Modelled from the spec: \<open>Text::splice(point, extent, text)\<close> (\<open>text.cc\<close> is missing from
  src/) replaces the code units from \<open>point\<close> to \<open>point.traverse(extent)\<close> by \<open>text\<close>.
\<close>

definition Text_splice :: "Text \<Rightarrow> Point \<Rightarrow> Point \<Rightarrow> Text \<Rightarrow> Text" where
  "Text_splice t p e new_text =
     take (Text_offset_for_position t p) t @ new_text @
     drop (Text_offset_for_position t (traverse p e)) t"

text \<open>
  Modelled from the spec: \<open>text-slice.h\<close> is missing from src/. A slice is a text with a
  start and an end position; \<open>prefix\<close> and \<open>suffix\<close> take positions relative to the start
  of the slice and stay inside it; size, extent and code units are those between the two
  positions (spec 6.2).
\<close>

record TextSlice =
  slice_text :: Text
  start_position :: Point
  end_position :: Point

definition TextSlice_of :: "Text \<Rightarrow> TextSlice" where
  "TextSlice_of t = \<lparr>slice_text = t, start_position = Point 0 0, end_position = Text_extent t\<rparr>"

definition prefix :: "TextSlice \<Rightarrow> Point \<Rightarrow> TextSlice" where
  "prefix s p =
     s\<lparr>end_position := point_min (end_position s) (traverse (start_position s) p)\<rparr>"

definition suffix :: "TextSlice \<Rightarrow> Point \<Rightarrow> TextSlice" where
  "suffix s p =
     s\<lparr>start_position := point_min (end_position s) (traverse (start_position s) p)\<rparr>"

definition slice :: "TextSlice \<Rightarrow> Range \<Rightarrow> TextSlice" where
  "slice s r = suffix (prefix s (range_end r)) (range_start r)"

definition start_offset :: "TextSlice \<Rightarrow> nat" where
  "start_offset s = Text_offset_for_position (slice_text s) (start_position s)"

definition end_offset :: "TextSlice \<Rightarrow> nat" where
  "end_offset s = Text_offset_for_position (slice_text s) (end_position s)"

definition slice_size :: "TextSlice \<Rightarrow> u32" where
  "slice_size s = of_nat (end_offset s) - of_nat (start_offset s)"

definition slice_extent :: "TextSlice \<Rightarrow> Point" where
  "slice_extent s = traversal (end_position s) (start_position s)"

definition slice_units :: "TextSlice \<Rightarrow> u16 list" where
  "slice_units s = take (end_offset s - start_offset s) (drop (start_offset s) (slice_text s))"

definition slice_position_for_offset :: "TextSlice \<Rightarrow> u32 \<Rightarrow> Point" where
  "slice_position_for_offset s n =
     traversal
       (Text_position_for_offset (slice_text s) (start_offset s + unat n))
       (start_position s)"

definition Text_append :: "Text \<Rightarrow> TextSlice \<Rightarrow> Text" where
  "Text_append t s = t @ slice_units s"

section \<open>The surrogate-aware iterator\<close>

text \<open>
  \<open>class Iterator\<close> of text-buffer.cc. A \<open>Text::const_iterator\<close> is the index of a code
  unit in the text of the current chunk (\<open>None\<close> is the value-initialised iterator);
  \<open>begin()\<close> and \<open>end()\<close> of a slice are its start and end offsets. \<open>wchar_t\<close> has 32 bits.
\<close>

type_synonym const_iterator = "nat option"

record Iterator =
  chunks :: "TextSlice list"
  chunk_index :: u32
  chunk_begin :: const_iterator
  chunk_end :: const_iterator
  chunk_iterator :: const_iterator

definition is_high_surrogate :: "u16 \<Rightarrow> bool" where
  "is_high_surrogate c \<longleftrightarrow> c AND 0xdc00 = 0xd800"

definition is_low_surrogate :: "u16 \<Rightarrow> bool" where
  "is_low_surrogate c \<longleftrightarrow> 0xdc00 \<le> c \<and> c \<le> 0xdfff"

definition slice_begin :: "TextSlice \<Rightarrow> const_iterator" where
  "slice_begin s = Some (start_offset s)"

definition slice_end :: "TextSlice \<Rightarrow> const_iterator" where
  "slice_end s = Some (end_offset s)"

text \<open>\<open>chunks->at(i)\<close> throws when the index is outside the vector.\<close>

definition chunks_at :: "TextSlice list \<Rightarrow> u32 \<Rightarrow> TextSlice result" where
  "chunks_at cs i = (if unat i < length cs then Inr (cs ! unat i) else Inl Out_Of_Range)"

text \<open>\<open>*chunk_iterator\<close>: the unit the iterator points at, in the text of the current chunk.\<close>

definition unit_at :: "Iterator \<Rightarrow> const_iterator \<Rightarrow> u16 result" where
  "unit_at it p =
     (case p of
        None \<Rightarrow> Inl Undefined_Behaviour
      | Some i \<Rightarrow>
          if unat (chunk_index it) < length (chunks it) \<and>
             i < length (slice_text (chunks it ! unat (chunk_index it)))
          then Inr (slice_text (chunks it ! unat (chunk_index it)) ! i)
          else Inl Undefined_Behaviour)"

definition iter_next :: "const_iterator \<Rightarrow> const_iterator result" where
  "iter_next p = (case p of None \<Rightarrow> Inl Undefined_Behaviour | Some i \<Rightarrow> Inr (Some (Suc i)))"

definition iter_prev :: "const_iterator \<Rightarrow> const_iterator result" where
  "iter_prev p =
     (case p of
        None \<Rightarrow> Inl Undefined_Behaviour
      | Some i \<Rightarrow> if i = 0 then Inl Undefined_Behaviour else Inr (Some (i - 1)))"

definition Iterator_begin :: "TextSlice list \<Rightarrow> Iterator result" where
  "Iterator_begin cs =
     (case cs of
        [] \<Rightarrow> Inl Undefined_Behaviour
      | c # _ \<Rightarrow>
          Inr \<lparr>chunks = cs, chunk_index = 0, chunk_begin = slice_begin c,
               chunk_end = slice_end c, chunk_iterator = slice_begin c\<rparr>)"

text \<open>\<open>Iterator::operator--\<close>, in its two steps.\<close>

definition retreat_unit :: "Iterator \<Rightarrow> Iterator result" where
  "retreat_unit it =
     (if chunk_iterator it = chunk_begin it then
        (if chunk_index it > 0 then
           bind (chunks_at (chunks it) (chunk_index it - 1)) (\<lambda>c.
           bind (iter_prev (slice_end c)) (\<lambda>p.
             Inr (it\<lparr>chunk_index := chunk_index it - 1, chunk_begin := slice_begin c,
                     chunk_end := slice_end c, chunk_iterator := p\<rparr>)))
         else Inr it)
      else bind (iter_prev (chunk_iterator it)) (\<lambda>p. Inr (it\<lparr>chunk_iterator := p\<rparr>)))"

definition decrement :: "Iterator \<Rightarrow> Iterator result" where
  "decrement it0 =
     bind (retreat_unit it0) (\<lambda>it.
       if chunk_iterator it \<noteq> chunk_begin it then
         bind (unit_at it (chunk_iterator it)) (\<lambda>c.
           if is_low_surrogate c
           then bind (iter_prev (chunk_iterator it)) (\<lambda>p. Inr (it\<lparr>chunk_iterator := p\<rparr>))
           else Inr it)
       else Inr it)"

text \<open>\<open>Iterator::operator*\<close>. The operands are promoted to \<open>int\<close> before the shift.\<close>

definition dereference :: "Iterator \<Rightarrow> u32 result" where
  "dereference it =
     bind (unit_at it (chunk_iterator it)) (\<lambda>c.
       if is_high_surrogate c then
         bind (iter_next (chunk_iterator it)) (\<lambda>next_iterator.
           if next_iterator \<noteq> chunk_end it then
             bind (unit_at it next_iterator) (\<lambda>n.
               Inr ((push_bit 10 (ucast c AND 0x3ff) OR (ucast n AND 0x3ff)) + 0x10000))
           else Inr (ucast c))
       else Inr (ucast c))"

section \<open>Patch\<close>

text \<open>
  \<open>patch.h\<close> and \<open>patch.cc\<close> are missing from src/, and the spec treats the patch as a
  black box (spec 1 and 6.1). The fields a change exposes are those of spec 6.1;
  \<open>new_text\<close> is a pointer, \<open>None\<close> when there is no payload. The operations of the patch
  are parameters of the model: a record of functions over an arbitrary patch type \<open>'p\<close>.
  \<open>change_for_new_position\<close> is not \<open>const\<close> in the source (it may rearrange the patch's
  tree), but the changes the patch holds stay the same, so it is a function like the
  others.
\<close>

record Change =
  old_start :: Point
  old_end :: Point
  new_start :: Point
  new_end :: Point
  new_text :: "Text option"
  old_text_size :: u32
  preceding_old_text_size :: u32
  preceding_new_text_size :: u32

record 'p patch_ops =
  find_change_for_new_position :: "'p \<Rightarrow> Point \<Rightarrow> Change option"
  change_for_new_position :: "'p \<Rightarrow> Point \<Rightarrow> Change option"
  find_change_ending_after_new_position :: "'p \<Rightarrow> Point \<Rightarrow> Change option"
  patch_splice :: "'p \<Rightarrow> Point \<Rightarrow> Point \<Rightarrow> Point \<Rightarrow> Text option \<Rightarrow> Text \<Rightarrow> u32 \<Rightarrow> 'p"
  patch_combine :: "'p \<Rightarrow> 'p \<Rightarrow> bool \<Rightarrow> 'p"
  patch_clear :: "'p \<Rightarrow> 'p"
  get_changes :: "'p \<Rightarrow> Change list"
  get_change_count :: "'p \<Rightarrow> u32"
  new_patch :: 'p

section \<open>Layers\<close>

text \<open>
  The template parameter \<open>T &previous_layer\<close> of the layer's queries: what a layer needs
  from the layer below it, or from the base text. \<open>for_each_chunk_in_range\<close> takes a
  callback and is passed beside this record, so that the record does not depend on the
  callback's state.
\<close>

record Parent =
  parent_size :: u32
  parent_extent :: Point
  parent_character_at :: "Point \<Rightarrow> u16 result"
  parent_clip_position :: "Point \<Rightarrow> ClipResult result"

type_synonym 'st callback = "TextSlice \<Rightarrow> 'st \<Rightarrow> bool \<times> 'st"

type_synonym 'st for_each = "Point \<Rightarrow> Point \<Rightarrow> 'st callback \<Rightarrow> 'st \<Rightarrow> (bool \<times> 'st) result"

text \<open>\<open>struct BaseLayer\<close>.\<close>

definition BaseLayer :: "Text \<Rightarrow> Parent" where
  "BaseLayer t =
     \<lparr>parent_size = Text_size t, parent_extent = Text_extent t,
      parent_character_at = Text_at t,
      parent_clip_position = (\<lambda>p. Inr (Text_clip_position t p))\<rparr>"

definition BaseLayer_for_each_chunk_in_range :: "Text \<Rightarrow> 'st for_each" where
  "BaseLayer_for_each_chunk_in_range t start end callback st =
     Inr (callback (slice (TextSlice_of t) (Range start end)) st)"

text \<open>
  \<open>struct TextBuffer::Layer\<close>. The members \<open>extent_\<close> and \<open>size_\<close> are \<open>extent_m\<close> and
  \<open>size_m\<close> here, and the templates \<open>character_at_\<close>, \<open>clip_position_\<close> and
  \<open>for_each_chunk_in_range_\<close> carry the suffix \<open>_T\<close> (a name cannot end in an underscore).
  The union of \<open>base_text\<close> and \<open>previous_layer\<close> is the
  position of the layer in the chain of layers: the layers below it are the tail of the
  list it heads, and \<open>base_text\<close> always points at the buffer's own text.
\<close>

record 'p Layer =
  patch :: 'p
  extent_m :: Point
  size_m :: u32
  snapshot_count :: u32
  is_first :: bool
  is_last :: bool

definition Layer_of_text :: "'p patch_ops \<Rightarrow> Text \<Rightarrow> 'p Layer" where
  "Layer_of_text ops base_text =
     \<lparr>patch = new_patch ops, extent_m = Text_extent base_text, size_m = Text_size base_text,
      snapshot_count = 0, is_first = True, is_last = True\<rparr>"

definition Layer_of_layer :: "'p patch_ops \<Rightarrow> 'p Layer \<Rightarrow> 'p Layer" where
  "Layer_of_layer ops previous_layer =
     \<lparr>patch = new_patch ops, extent_m = extent_m previous_layer, size_m = size_m previous_layer,
      snapshot_count = 0, is_first = False, is_last = True\<rparr>"

definition previous_column :: "Point \<Rightarrow> Point" where
  "previous_column p = Point (row p) (column p - 1)"

definition deref_text :: "Text option \<Rightarrow> Text result" where
  "deref_text t = (case t of None \<Rightarrow> Inl Undefined_Behaviour | Some x \<Rightarrow> Inr x)"

definition character_at_T :: "'p patch_ops \<Rightarrow> Parent \<Rightarrow> 'p Layer \<Rightarrow> Point \<Rightarrow> u16 result" where
  "character_at_T ops previous_layer l p =
     (case find_change_for_new_position ops (patch l) p of
        None \<Rightarrow> parent_character_at previous_layer p
      | Some change \<Rightarrow>
          if point_less p (new_end change) then
            bind (deref_text (new_text change)) (\<lambda>t. Text_at t (traversal p (new_start change)))
          else
            parent_character_at previous_layer
              (traverse (old_end change) (traversal p (new_end change))))"

text \<open>\<open>clip_position_T\<close>, first branch: the position is inside the inserted text.\<close>

definition clip_within_change ::
  "Parent \<Rightarrow> Change \<Rightarrow> u32 \<Rightarrow> Point \<Rightarrow> ClipResult result" where
  "clip_within_change previous_layer preceding_change preceding_change_current_offset p =
     bind (deref_text (new_text preceding_change)) (\<lambda>t.
       let position_within_preceding_change =
             Text_clip_position t (traversal p (new_start preceding_change));
           plain = ClipResult
             (traverse (new_start preceding_change) (position position_within_preceding_change))
             (preceding_change_current_offset + offset position_within_preceding_change)
       in
         if offset position_within_preceding_change = 0 \<and>
            column (old_start preceding_change) > 0
         then
           (case t of
              [] \<Rightarrow> Inl Undefined_Behaviour
            | front # _ \<Rightarrow>
                if front = LF then
                  bind (parent_character_at previous_layer
                          (previous_column (old_start preceding_change))) (\<lambda>c.
                    if c = CR then
                      Inr (ClipResult (previous_column (new_start preceding_change))
                             (preceding_change_current_offset - 1))
                    else Inr plain)
                else Inr plain)
         else Inr plain)"

text \<open>\<open>clip_position_T\<close>, second branch: the position is at or after the end of the change.\<close>

definition clip_after_change ::
  "Parent \<Rightarrow> Change \<Rightarrow> u32 \<Rightarrow> u32 \<Rightarrow> Point \<Rightarrow> ClipResult result" where
  "clip_after_change previous_layer preceding_change preceding_change_base_offset
       preceding_change_current_offset p =
     bind (parent_clip_position previous_layer
             (traverse (old_end preceding_change) (traversal p (new_end preceding_change))))
       (\<lambda>base_location.
     bind (deref_text (new_text preceding_change)) (\<lambda>t.
       let distance_past_preceding_change = ClipResult
             (traversal (position base_location) (old_end preceding_change))
             (offset base_location -
                (preceding_change_base_offset + old_text_size preceding_change));
           plain = ClipResult
             (traverse (new_end preceding_change) (position distance_past_preceding_change))
             (preceding_change_current_offset + Text_size t +
                offset distance_past_preceding_change);
           stitched = ClipResult (previous_column (new_end preceding_change))
             (preceding_change_current_offset + Text_size t - 1)
       in
         if offset distance_past_preceding_change = 0 \<and>
            offset base_location < parent_size previous_layer
         then
           bind (if Text_size t > 0 then Inr (last t)
                 else if column (old_start preceding_change) > 0 then
                   parent_character_at previous_layer
                     (previous_column (old_start preceding_change))
                 else Inr 0) (\<lambda>previous_character.
             if previous_character = CR then
               bind (parent_character_at previous_layer (position base_location)) (\<lambda>c.
                 if c = LF then Inr stitched else Inr plain)
             else Inr plain)
         else Inr plain))"

definition clip_position_T ::
  "'p patch_ops \<Rightarrow> Parent \<Rightarrow> 'p Layer \<Rightarrow> Point \<Rightarrow> ClipResult result" where
  "clip_position_T ops previous_layer l p =
     (case (if is_last l then change_for_new_position ops (patch l) p
            else find_change_for_new_position ops (patch l) p) of
        None \<Rightarrow> parent_clip_position previous_layer p
      | Some preceding_change \<Rightarrow>
          bind (parent_clip_position previous_layer (old_start preceding_change)) (\<lambda>b.
            let preceding_change_base_offset = offset b;
                preceding_change_current_offset =
                  preceding_change_base_offset +
                  preceding_new_text_size preceding_change -
                  preceding_old_text_size preceding_change
            in
              if point_less p (new_end preceding_change) then
                clip_within_change previous_layer preceding_change
                  preceding_change_current_offset p
              else
                clip_after_change previous_layer preceding_change
                  preceding_change_base_offset preceding_change_current_offset p))"

text \<open>
  \<open>for_each_chunk_in_range_T\<close>. One turn of the \<open>while\<close> loop is the block guarded by
  \<open>if (change)\<close>, which may return or break, and then the step to the next change.
\<close>

datatype 'st loop_step = Return bool 'st | Continue Point Point 'st

definition visit_change ::
  "Point \<Rightarrow> 'st callback \<Rightarrow> Change option \<Rightarrow> Point \<Rightarrow> Point \<Rightarrow> 'st \<Rightarrow> 'st loop_step result"
  where
  "visit_change goal_position callback change current_position base_position st =
     (case change of
        None \<Rightarrow> Inr (Continue current_position base_position st)
      | Some ch \<Rightarrow>
          if point_less current_position (new_end ch) then
            bind (deref_text (new_text ch)) (\<lambda>t.
              let s = suffix
                        (prefix (TextSlice_of t)
                           (point_min (traversal goal_position (new_start ch))
                                      (traversal (new_end ch) (new_start ch))))
                        (traversal current_position (new_start ch))
              in case callback s st of
                   (True, st') \<Rightarrow> Inr (Return True st')
                 | (False, st') \<Rightarrow>
                     if point_less goal_position (new_end ch) then Inr (Return False st')
                     else Inr (Continue (new_end ch)
                                 (traverse (old_end ch) (traversal (new_end ch) (new_end ch)))
                                 st'))
          else
            Inr (Continue current_position
                   (traverse (old_end ch) (traversal current_position (new_end ch))) st))"

fun chunk_loop ::
  "'p patch_ops \<Rightarrow> 'st for_each \<Rightarrow> 'p \<Rightarrow> Point \<Rightarrow> 'st callback \<Rightarrow> nat \<Rightarrow>
   Point \<Rightarrow> Point \<Rightarrow> Change option \<Rightarrow> 'st \<Rightarrow> (bool \<times> 'st) result" where
  "chunk_loop ops previous_for_each pt goal_position callback 0
       current_position base_position change st =
     (if point_less current_position goal_position then Inl Out_Of_Fuel
      else Inr (False, st))"
| "chunk_loop ops previous_for_each pt goal_position callback (Suc fuel)
       current_position base_position change st =
     (if \<not> point_less current_position goal_position then Inr (False, st)
      else
        bind (visit_change goal_position callback change current_position base_position st)
          (\<lambda>step. case step of
             Return b st' \<Rightarrow> Inr (b, st')
           | Continue current' base' st' \<Rightarrow>
               let change' = find_change_ending_after_new_position ops pt current';
                   next_position =
                     (case change' of
                        Some c \<Rightarrow> point_min goal_position (new_start c)
                      | None \<Rightarrow> goal_position);
                   next_base_position =
                     (case change' of
                        Some c \<Rightarrow>
                          point_min (traverse base' (traversal goal_position current'))
                                    (old_start c)
                      | None \<Rightarrow> traverse base' (traversal goal_position current'))
               in bind (previous_for_each base' next_base_position callback st')
                    (\<lambda>r. case r of
                       (True, st'') \<Rightarrow> Inr (True, st'')
                     | (False, st'') \<Rightarrow>
                         chunk_loop ops previous_for_each pt goal_position callback fuel
                           next_position next_base_position change' st'')))"

definition for_each_chunk_in_range_T ::
  "'p patch_ops \<Rightarrow> nat \<Rightarrow> Parent \<Rightarrow> 'st for_each \<Rightarrow> 'p Layer \<Rightarrow> 'st for_each" where
  "for_each_chunk_in_range_T ops fuel previous_layer previous_for_each l start end callback st =
     bind (clip_position_T ops previous_layer l end) (\<lambda>g.
     bind (clip_position_T ops previous_layer l start) (\<lambda>c.
       chunk_loop ops previous_for_each (patch l) (position g) callback fuel
         (position c) (position c)
         (find_change_for_new_position ops (patch l) (position c)) st))"

text \<open>
  A layer and the layers below it, seen as the \<open>T\<close> its own queries take: the dispatch on
  \<open>is_first\<close> of \<open>Layer::character_at\<close>, \<open>Layer::clip_position\<close> and
  \<open>Layer::for_each_chunk_in_range\<close>. A layer that is not the first and has no layer below
  it holds a dangling \<open>previous_layer\<close>; every call through it is undefined (its size
  and extent are then never read).
\<close>

definition dangling :: Parent where
  "dangling =
     \<lparr>parent_size = 0, parent_extent = Point 0 0,
      parent_character_at = (\<lambda>_. Inl Undefined_Behaviour),
      parent_clip_position = (\<lambda>_. Inl Undefined_Behaviour)\<rparr>"

definition Layer_as_parent :: "'p patch_ops \<Rightarrow> Parent \<Rightarrow> 'p Layer \<Rightarrow> Parent" where
  "Layer_as_parent ops previous_layer l =
     \<lparr>parent_size = size_m l, parent_extent = extent_m l,
      parent_character_at = character_at_T ops previous_layer l,
      parent_clip_position = clip_position_T ops previous_layer l\<rparr>"

primrec layer_view :: "'p patch_ops \<Rightarrow> Text \<Rightarrow> 'p Layer list \<Rightarrow> Parent" where
  "layer_view ops base_text [] = dangling"
| "layer_view ops base_text (l # ls) =
     Layer_as_parent ops
       (if is_first l then BaseLayer base_text else layer_view ops base_text ls) l"

definition previous_view :: "'p patch_ops \<Rightarrow> Text \<Rightarrow> 'p Layer \<Rightarrow> 'p Layer list \<Rightarrow> Parent" where
  "previous_view ops base_text l ls =
     (if is_first l then BaseLayer base_text else layer_view ops base_text ls)"

primrec Layer_for_each_chunk_in_range ::
  "'p patch_ops \<Rightarrow> nat \<Rightarrow> Text \<Rightarrow> 'p Layer list \<Rightarrow> 'st for_each" where
  "Layer_for_each_chunk_in_range ops fuel base_text [] =
     (\<lambda>start end callback st. Inl Undefined_Behaviour)"
| "Layer_for_each_chunk_in_range ops fuel base_text (l # ls) =
     for_each_chunk_in_range_T ops fuel (previous_view ops base_text l ls)
       (if is_first l then BaseLayer_for_each_chunk_in_range base_text
        else Layer_for_each_chunk_in_range ops fuel base_text ls) l"

definition Layer_character_at ::
  "'p patch_ops \<Rightarrow> Text \<Rightarrow> 'p Layer list \<Rightarrow> Point \<Rightarrow> u16 result" where
  "Layer_character_at ops base_text ls = parent_character_at (layer_view ops base_text ls)"

definition Layer_clip_position ::
  "'p patch_ops \<Rightarrow> Text \<Rightarrow> 'p Layer list \<Rightarrow> Point \<Rightarrow> ClipResult result" where
  "Layer_clip_position ops base_text ls = parent_clip_position (layer_view ops base_text ls)"

definition position_for_offset_callback :: "u32 \<Rightarrow> (Point \<times> u32) callback" where
  "position_for_offset_callback goal_offset s st =
     (case st of (pos, off) \<Rightarrow>
        if off + slice_size s \<ge> goal_offset then
          (True, (traverse pos (slice_position_for_offset s (goal_offset - off)), off))
        else (False, (traverse pos (slice_extent s), off + slice_size s)))"

definition Layer_position_for_offset ::
  "'p patch_ops \<Rightarrow> nat \<Rightarrow> Text \<Rightarrow> 'p Layer list \<Rightarrow> u32 \<Rightarrow> Point result" where
  "Layer_position_for_offset ops fuel base_text ls goal_offset =
     bind (Layer_for_each_chunk_in_range ops fuel base_text ls (Point 0 0)
             (parent_extent (layer_view ops base_text ls))
             (position_for_offset_callback goal_offset) (Point 0 0, 0))
       (\<lambda>r. Inr (fst (snd r)))"

definition Layer_text_in_range ::
  "'p patch_ops \<Rightarrow> nat \<Rightarrow> Text \<Rightarrow> 'p Layer list \<Rightarrow> Range \<Rightarrow> Text result" where
  "Layer_text_in_range ops fuel base_text ls r =
     bind (Layer_for_each_chunk_in_range ops fuel base_text ls (range_start r) (range_end r)
             (\<lambda>s res. (False, Text_append res s)) [])
       (\<lambda>r. Inr (snd r))"

definition Layer_chunks_in_range ::
  "'p patch_ops \<Rightarrow> nat \<Rightarrow> Text \<Rightarrow> 'p Layer list \<Rightarrow> Range \<Rightarrow> TextSlice list result" where
  "Layer_chunks_in_range ops fuel base_text ls r =
     bind (Layer_for_each_chunk_in_range ops fuel base_text ls (range_start r) (range_end r)
             (\<lambda>s res. (False, res @ [s])) [])
       (\<lambda>r. Inr (snd r))"

text \<open>\<open>Layer::set_text_in_range\<close>, on the layer that heads the list.\<close>

definition Layer_set_text_in_range ::
  "'p patch_ops \<Rightarrow> Text \<Rightarrow> 'p Layer \<Rightarrow> 'p Layer list \<Rightarrow> Range \<Rightarrow> Text \<Rightarrow> 'p Layer result"
  where
  "Layer_set_text_in_range ops base_text l ls old_range t =
     bind (Layer_clip_position ops base_text (l # ls) (range_start old_range)) (\<lambda>start.
     bind (Layer_clip_position ops base_text (l # ls) (range_end old_range)) (\<lambda>end.
       let new_range_end = traverse (position start) (Text_extent t);
           deleted_text_size = offset end - offset start
       in Inr (l\<lparr>extent_m := traverse new_range_end
                               (traversal (extent_m l) (range_end old_range)),
                 size_m := size_m l + (Text_size t - deleted_text_size),
                 patch := patch_splice ops (patch l) (range_start old_range)
                            (range_extent old_range) (Text_extent t) None t
                            deleted_text_size\<rparr>)))"

section \<open>TextBuffer\<close>

text \<open>
  \<open>top_layer\<close> and the chain of \<open>previous_layer\<close> pointers that starts at it: the head of
  \<open>lower_layers\<close> is \<open>top_layer->previous_layer\<close>, and so on down to the first layer.
\<close>

record 'p TextBuffer =
  base_text :: Text
  top_layer :: "'p Layer"
  lower_layers :: "'p Layer list"

definition layers :: "'p TextBuffer \<Rightarrow> 'p Layer list" where
  "layers b = top_layer b # lower_layers b"

definition set_layers :: "'p TextBuffer \<Rightarrow> 'p Layer list \<Rightarrow> 'p TextBuffer" where
  "set_layers b ls = b\<lparr>top_layer := hd ls, lower_layers := tl ls\<rparr>"

definition TextBuffer_new :: "'p patch_ops \<Rightarrow> Text \<Rightarrow> 'p TextBuffer" where
  "TextBuffer_new ops t = \<lparr>base_text = t, top_layer = Layer_of_text ops t, lower_layers = []\<rparr>"

definition reset_base_text ::
  "'p patch_ops \<Rightarrow> Text \<Rightarrow> 'p TextBuffer \<Rightarrow> bool \<times> 'p TextBuffer" where
  "reset_base_text ops new_base_text b =
     (if \<not> is_first (top_layer b) then (False, b)
      else (True,
            b\<lparr>top_layer := (top_layer b)
                 \<lparr>patch := patch_clear ops (patch (top_layer b)),
                  extent_m := Text_extent new_base_text,
                  size_m := Text_size new_base_text\<rparr>,
              base_text := new_base_text\<rparr>))"

fun apply_changes :: "Text \<Rightarrow> Change list \<Rightarrow> Text result" where
  "apply_changes t [] = Inr t"
| "apply_changes t (change # changes) =
     bind (deref_text (new_text change)) (\<lambda>nt.
       apply_changes
         (Text_splice t (new_start change) (traversal (old_end change) (old_start change)) nt)
         changes)"

definition flush_outstanding_changes ::
  "'p patch_ops \<Rightarrow> 'p TextBuffer \<Rightarrow> (bool \<times> 'p TextBuffer) result" where
  "flush_outstanding_changes ops b =
     (if \<not> is_first (top_layer b) then Inr (False, b)
      else
        bind (apply_changes (base_text b) (get_changes ops (patch (top_layer b)))) (\<lambda>t.
          Inr (True,
               b\<lparr>base_text := t,
                 top_layer := (top_layer b)\<lparr>patch := patch_clear ops (patch (top_layer b))\<rparr>\<rparr>)))"

text \<open>
  \<open>serializer.h\<close> is missing from src/: what is written to a \<open>Serializer\<close> and read from
  a \<open>Deserializer\<close> are parameters, over arbitrary stream types \<open>'w\<close> and \<open>'r\<close>.
\<close>

record ('p, 'w, 'r) stream_ops =
  serialize_patch :: "'p \<Rightarrow> 'w \<Rightarrow> 'w"
  append_u32 :: "u32 \<Rightarrow> 'w \<Rightarrow> 'w"
  serialize_point :: "Point \<Rightarrow> 'w \<Rightarrow> 'w"
  deserialize_patch :: "'r \<Rightarrow> 'p \<times> 'r"
  read_u32 :: "'r \<Rightarrow> u32 \<times> 'r"
  deserialize_point :: "'r \<Rightarrow> Point \<times> 'r"

definition serialize_outstanding_changes ::
  "('p, 'w, 'r) stream_ops \<Rightarrow> 'p TextBuffer \<Rightarrow> 'w \<Rightarrow> bool \<times> 'p TextBuffer \<times> 'w" where
  "serialize_outstanding_changes io b serializer =
     (if \<not> is_first (top_layer b) then (False, b, serializer)
      else (True, b,
            serialize_point io (extent_m (top_layer b))
              (append_u32 io (size_m (top_layer b))
                 (serialize_patch io (patch (top_layer b)) serializer))))"

definition deserialize_outstanding_changes ::
  "'p patch_ops \<Rightarrow> ('p, 'w, 'r) stream_ops \<Rightarrow> 'p TextBuffer \<Rightarrow> 'r \<Rightarrow>
   bool \<times> 'p TextBuffer \<times> 'r" where
  "deserialize_outstanding_changes ops io b deserializer =
     (if \<not> is_first (top_layer b) \<or> get_change_count ops (patch (top_layer b)) > 0
      then (False, b, deserializer)
      else
        (case deserialize_patch io deserializer of (p, r1) \<Rightarrow>
         case read_u32 io r1 of (n, r2) \<Rightarrow>
         case deserialize_point io r2 of (e, r3) \<Rightarrow>
           (True, b\<lparr>top_layer := (top_layer b)\<lparr>patch := p, size_m := n, extent_m := e\<rparr>\<rparr>, r3)))"

definition TextBuffer_extent :: "'p TextBuffer \<Rightarrow> Point" where
  "TextBuffer_extent b = extent_m (top_layer b)"

definition TextBuffer_size :: "'p TextBuffer \<Rightarrow> u32" where
  "TextBuffer_size b = size_m (top_layer b)"


definition TextBuffer_position_for_offset ::
  "'p patch_ops \<Rightarrow> nat \<Rightarrow> 'p TextBuffer \<Rightarrow> u32 \<Rightarrow> Point result" where
  "TextBuffer_position_for_offset ops fuel b n =
     Layer_position_for_offset ops fuel (base_text b) (layers b) n"

definition TextBuffer_text_in_range ::
  "'p patch_ops \<Rightarrow> nat \<Rightarrow> 'p TextBuffer \<Rightarrow> Range \<Rightarrow> Text result" where
  "TextBuffer_text_in_range ops fuel b r =
     Layer_text_in_range ops fuel (base_text b) (layers b) r"

definition TextBuffer_text :: "'p patch_ops \<Rightarrow> nat \<Rightarrow> 'p TextBuffer \<Rightarrow> Text result" where
  "TextBuffer_text ops fuel b =
     TextBuffer_text_in_range ops fuel b (Range (Point 0 0) (TextBuffer_extent b))"

definition TextBuffer_chunks ::
  "'p patch_ops \<Rightarrow> nat \<Rightarrow> 'p TextBuffer \<Rightarrow> TextSlice list result" where
  "TextBuffer_chunks ops fuel b =
     Layer_chunks_in_range ops fuel (base_text b) (layers b)
       (Range (Point 0 0) (TextBuffer_extent b))"

definition set_text_in_range ::
  "'p patch_ops \<Rightarrow> Range \<Rightarrow> Text \<Rightarrow> 'p TextBuffer \<Rightarrow> 'p TextBuffer result" where
  "set_text_in_range ops old_range t b =
     bind (Layer_set_text_in_range ops (base_text b) (top_layer b) (lower_layers b) old_range t)
       (\<lambda>l. Inr (b\<lparr>top_layer := l\<rparr>))"


section \<open>Snapshots\<close>

text \<open>
  A snapshot holds a reference to its buffer and to one layer of the buffer's chain. The
  layer is named by the number of layers below it (the first layer is 0): pushing a new
  top layer and folding the layers above a pinned layer leave that number, and the layers
  below, as they are. A reference that names no layer of the chain is dangling.
\<close>

datatype Snapshot = Snapshot (layer_ref: nat)

definition snapshot_layers :: "'p TextBuffer \<Rightarrow> Snapshot \<Rightarrow> 'p Layer list" where
  "snapshot_layers b s =
     (if layer_ref s < length (layers b)
      then drop (length (layers b) - Suc (layer_ref s)) (layers b) else [])"

definition create_snapshot ::
  "'p patch_ops \<Rightarrow> 'p TextBuffer \<Rightarrow> (Snapshot \<times> 'p TextBuffer) result" where
  "create_snapshot ops b =
     (if \<not> is_first (top_layer b) \<and> get_change_count ops (patch (top_layer b)) = 0 then
        (case lower_layers b of
           [] \<Rightarrow> Inl Undefined_Behaviour
         | l # ls \<Rightarrow>
             Inr (Snapshot (length ls),
                  b\<lparr>lower_layers := l\<lparr>snapshot_count := snapshot_count l + 1\<rparr> # ls\<rparr>))
      else
        (let l = (top_layer b)\<lparr>is_last := False\<rparr>
         in Inr (Snapshot (length (lower_layers b)),
                 b\<lparr>top_layer := Layer_of_layer ops l,
                   lower_layers := l\<lparr>snapshot_count := snapshot_count l + 1\<rparr> #
                                   lower_layers b\<rparr>)))"

definition Snapshot_size :: "'p TextBuffer \<Rightarrow> Snapshot \<Rightarrow> u32 result" where
  "Snapshot_size b s =
     (case snapshot_layers b s of [] \<Rightarrow> Inl Undefined_Behaviour | l # _ \<Rightarrow> Inr (size_m l))"

definition Snapshot_extent :: "'p TextBuffer \<Rightarrow> Snapshot \<Rightarrow> Point result" where
  "Snapshot_extent b s =
     (case snapshot_layers b s of [] \<Rightarrow> Inl Undefined_Behaviour | l # _ \<Rightarrow> Inr (extent_m l))"

definition Snapshot_text_in_range ::
  "'p patch_ops \<Rightarrow> nat \<Rightarrow> 'p TextBuffer \<Rightarrow> Snapshot \<Rightarrow> Range \<Rightarrow> Text result" where
  "Snapshot_text_in_range ops fuel b s r =
     Layer_text_in_range ops fuel (base_text b) (snapshot_layers b s) r"

definition Snapshot_text :: "'p patch_ops \<Rightarrow> nat \<Rightarrow> 'p TextBuffer \<Rightarrow> Snapshot \<Rightarrow> Text result"
  where
  "Snapshot_text ops fuel b s =
     bind (Snapshot_extent b s) (\<lambda>e.
       Layer_text_in_range ops fuel (base_text b) (snapshot_layers b s) (Range (Point 0 0) e))"

text \<open>
  \<open>Snapshot::~Snapshot\<close>. The \<open>while\<close> loop walks down from the top layer and collects
  \<open>layers_to_remove\<close> in the order of \<open>push_back\<close>; the layer it stops at heads the rest.
\<close>

fun collect_layers_to_remove :: "'p Layer list \<Rightarrow> ('p Layer list \<times> 'p Layer list) result" where
  "collect_layers_to_remove [] = Inl Undefined_Behaviour"
| "collect_layers_to_remove [l] =
     (if is_first l then Inr ([], [l]) else Inl Undefined_Behaviour)"
| "collect_layers_to_remove (l # p # ls) =
     (if \<not> is_first l \<and> snapshot_count p = 0 then
        bind (collect_layers_to_remove (p # ls)) (\<lambda>r. Inr (l # fst r, snd r))
      else Inr ([], l # p # ls))"

text \<open>The \<open>for\<close> loop over the layers to remove, from \<open>rbegin()\<close> to \<open>rend()\<close>.\<close>

fun incorporate :: "'p patch_ops \<Rightarrow> 'p \<Rightarrow> 'p Layer list \<Rightarrow> bool \<Rightarrow> 'p" where
  "incorporate ops pt [] left_to_right = pt"
| "incorporate ops pt (l # ls) left_to_right =
     incorporate ops (patch_combine ops pt (patch l) left_to_right) ls (\<not> left_to_right)"

definition coalesce :: "'p patch_ops \<Rightarrow> 'p TextBuffer \<Rightarrow> 'p TextBuffer result" where
  "coalesce ops b =
     bind (collect_layers_to_remove (layers b)) (\<lambda>r.
       case snd r of
         [] \<Rightarrow> Inl Undefined_Behaviour
       | l # ls \<Rightarrow>
           Inr (b\<lparr>top_layer :=
                    l\<lparr>size_m := size_m (top_layer b),
                      extent_m := extent_m (top_layer b),
                      patch := incorporate ops (patch l) (rev (fst r)) True,
                      is_last := True\<rparr>,
                  lower_layers := ls\<rparr>))"

definition Snapshot_destroy ::
  "'p patch_ops \<Rightarrow> 'p TextBuffer \<Rightarrow> Snapshot \<Rightarrow> 'p TextBuffer result" where
  "Snapshot_destroy ops b s =
     (if \<not> layer_ref s < length (layers b) then Inl Undefined_Behaviour
      else
        let i = length (layers b) - Suc (layer_ref s);
            l = layers b ! i
        in if \<not> snapshot_count l > 0 then Inl Assertion_Failed
           else
             let b' = set_layers b ((layers b)[i := l\<lparr>snapshot_count := snapshot_count l - 1\<rparr>])
             in if snapshot_count l - 1 > 0 then Inr b'
                else if snapshot_count (top_layer b') > 0 then Inr b'
                else coalesce ops b')"

section \<open>An instance of the patch parameters\<close>

text \<open>
  Modelled from the spec: the \<open>Patch\<close> class is missing from src/. This instance runs the
  model on concrete buffers; every general theorem below is about arbitrary parameters.
  A patch is the list of its changes in ascending order (spec 6.1, \<open>get_changes\<close>). The
  layer's queries take the change a lookup returns to be the last one that starts at or
  before the position (spec 4.1: "same change but \<open>position \<ge> new_end\<close>"), and
  \<open>find_change_ending_after_new_position\<close> returns the next change whose \<open>new_end\<close> is
  after the position (spec 6.1). \<open>splice\<close> records an edit that starts at or after the end
  of every recorded change, the only edits the examples make. The spec gives the
  signature of \<open>combine\<close> and no more, so a combined patch is kept as the term of its
  operands and the lookups find nothing in it.
\<close>

datatype patch_term = Changes "Change list" | Combined patch_term patch_term bool

fun term_changes :: "patch_term \<Rightarrow> Change list" where
  "term_changes (Changes cs) = cs"
| "term_changes (Combined a b left_to_right) = term_changes a @ term_changes b"

definition preceding_change_of :: "Change list \<Rightarrow> Point \<Rightarrow> Change option" where
  "preceding_change_of cs p =
     (case filter (\<lambda>c. point_le (new_start c) p) cs of [] \<Rightarrow> None | xs \<Rightarrow> Some (last xs))"

definition change_ending_after :: "Change list \<Rightarrow> Point \<Rightarrow> Change option" where
  "change_ending_after cs p = List.find (\<lambda>c. point_less p (new_end c)) cs"

fun lookup_in :: "(Change list \<Rightarrow> Point \<Rightarrow> Change option) \<Rightarrow> patch_term \<Rightarrow> Point \<Rightarrow> Change option"
  where
  "lookup_in f (Changes cs) p = f cs p"
| "lookup_in f (Combined a b left_to_right) p = None"

definition text_sizes :: "Change list \<Rightarrow> u32" where
  "text_sizes cs = sum_list (map (\<lambda>c. case new_text c of None \<Rightarrow> 0 | Some t \<Rightarrow> Text_size t) cs)"

definition record_edit ::
  "Change list \<Rightarrow> Point \<Rightarrow> Point \<Rightarrow> Point \<Rightarrow> Text \<Rightarrow> u32 \<Rightarrow> Change list" where
  "record_edit cs start old_extent new_extent t deleted_text_size =
     (let old_start_point =
            (case cs of [] \<Rightarrow> start
             | _ \<Rightarrow> traverse (old_end (last cs)) (traversal start (new_end (last cs))))
      in cs @ [\<lparr>old_start = old_start_point,
                old_end = traverse old_start_point old_extent,
                new_start = start,
                new_end = traverse start new_extent,
                new_text = Some t,
                old_text_size = deleted_text_size,
                preceding_old_text_size = sum_list (map old_text_size cs),
                preceding_new_text_size = text_sizes cs\<rparr>])"

fun term_splice ::
  "patch_term \<Rightarrow> Point \<Rightarrow> Point \<Rightarrow> Point \<Rightarrow> Text option \<Rightarrow> Text \<Rightarrow> u32 \<Rightarrow> patch_term" where
  "term_splice (Changes cs) start old_extent new_extent old_text t n =
     Changes (record_edit cs start old_extent new_extent t n)"
| "term_splice (Combined a b left_to_right) start old_extent new_extent old_text t n =
     Combined a b left_to_right"

definition term_ops :: "patch_term patch_ops" where
  "term_ops =
     \<lparr>find_change_for_new_position = lookup_in preceding_change_of,
      change_for_new_position = lookup_in preceding_change_of,
      find_change_ending_after_new_position = lookup_in change_ending_after,
      patch_splice = term_splice,
      patch_combine = Combined,
      patch_clear = (\<lambda>p. Changes []),
      get_changes = term_changes,
      get_change_count = (\<lambda>p. of_nat (length (term_changes p))),
      new_patch = Changes []\<rparr>"

text \<open>
  Modelled from the spec: the two lookups as section 6.1 words them apart.
  \<open>find_change_for_new_position(p)\<close> is "the unique change whose \<open>[new_start, new_end)\<close>
  contains \<open>p\<close>", and \<open>change_for_new_position\<close> "treats the open end as inclusive": it is
  the lookup of the instance above, which finds the change for a position at its
  \<open>new_end\<close>, and for the positions from there up to the next change, which the second
  branch of \<open>clip_position_\<close> and scenario 8.3.1 (\<open>line_length_for_row(0) == 4\<close>) need.
  The instance above reads the same section with "same change but \<open>position \<ge> new_end\<close>"
  of section 4.1, which the third branch of \<open>character_at_\<close> needs; the spec does not
  settle between the two.
\<close>

definition containing_change_of :: "Change list \<Rightarrow> Point \<Rightarrow> Change option" where
  "containing_change_of cs p =
     List.find (\<lambda>c. point_le (new_start c) p \<and> point_less p (new_end c)) cs"

definition contract_ops :: "patch_term patch_ops" where
  "contract_ops =
     term_ops\<lparr>find_change_for_new_position := lookup_in containing_change_of\<rparr>"

text \<open>
  A stream for the instance: the items appended, in order; reading takes the first item.
\<close>

datatype stream_item = Patch_item patch_term | U32_item u32 | Point_item Point

definition term_stream_ops :: "(patch_term, stream_item list, stream_item list) stream_ops" where
  "term_stream_ops =
     \<lparr>serialize_patch = (\<lambda>p w. w @ [Patch_item p]),
      append_u32 = (\<lambda>n w. w @ [U32_item n]),
      serialize_point = (\<lambda>p w. w @ [Point_item p]),
      deserialize_patch = (\<lambda>r. case r of Patch_item p # r' \<Rightarrow> (p, r') | _ \<Rightarrow> (Changes [], r)),
      read_u32 = (\<lambda>r. case r of U32_item n # r' \<Rightarrow> (n, r') | _ \<Rightarrow> (0, r)),
      deserialize_point = (\<lambda>r. case r of Point_item p # r' \<Rightarrow> (p, r') | _ \<Rightarrow> (Point 0 0, r))\<rparr>"

section \<open>Example buffers\<close>

text \<open>
  The buffer of scenario 8.3.4 of the spec, taken two steps further: \<open>abc\<close>, a snapshot,
  the edit of \<open>(0,1)..(0,2)\<close> to \<open>BB\<close>, a second snapshot, \<open>!\<close> inserted at \<open>(0,4)\<close>, and the
  first snapshot destroyed. Three layers remain; the second snapshot pins the middle one.
\<close>

definition text_abc :: Text where "text_abc = [0x61, 0x62, 0x63]"

definition text_BB :: Text where "text_BB = [0x42, 0x42]"

definition change_BB :: Change where
  "change_BB =
     \<lparr>old_start = Point 0 1, old_end = Point 0 2, new_start = Point 0 1, new_end = Point 0 3,
      new_text = Some text_BB, old_text_size = 1,
      preceding_old_text_size = 0, preceding_new_text_size = 0\<rparr>"

definition change_bang :: Change where
  "change_bang =
     \<lparr>old_start = Point 0 4, old_end = Point 0 4, new_start = Point 0 4, new_end = Point 0 5,
      new_text = Some [0x21], old_text_size = 0,
      preceding_old_text_size = 0, preceding_new_text_size = 0\<rparr>"

definition first_layer :: "patch_term Layer" where
  "first_layer =
     \<lparr>patch = Changes [], extent_m = Point 0 3, size_m = 3, snapshot_count = 0,
      is_first = True, is_last = False\<rparr>"

definition middle_layer :: "patch_term Layer" where
  "middle_layer =
     \<lparr>patch = Changes [change_BB], extent_m = Point 0 4, size_m = 4, snapshot_count = 1,
      is_first = False, is_last = False\<rparr>"

definition upper_layer :: "patch_term Layer" where
  "upper_layer =
     \<lparr>patch = Changes [change_bang], extent_m = Point 0 5, size_m = 5, snapshot_count = 0,
      is_first = False, is_last = True\<rparr>"

definition three_layers :: "patch_term TextBuffer" where
  "three_layers =
     \<lparr>base_text = text_abc, top_layer = upper_layer,
      lower_layers = [middle_layer, first_layer]\<rparr>"

definition three_layers_history :: "(Snapshot \<times> patch_term TextBuffer) result" where
  "three_layers_history =
     bind (create_snapshot term_ops (TextBuffer_new term_ops text_abc)) (\<lambda>(s1, b1).
     bind (set_text_in_range term_ops (Range (Point 0 1) (Point 0 2)) text_BB b1) (\<lambda>b2.
     bind (create_snapshot term_ops b2) (\<lambda>(s2, b3).
     bind (set_text_in_range term_ops (Range (Point 0 4) (Point 0 4)) [0x21] b3) (\<lambda>b4.
     bind (Snapshot_destroy term_ops b4 s1) (\<lambda>b5. Inr (s2, b5))))))"

text \<open>
  \<open>a\r\<close> with an LF inserted at its end: the CR of the base text and the LF of the change
  form a CRLF pair across the start of the insertion.
\<close>

definition change_LF :: Change where
  "change_LF =
     \<lparr>old_start = Point 0 2, old_end = Point 0 2, new_start = Point 0 2, new_end = Point 1 0,
      new_text = Some [LF], old_text_size = 0,
      preceding_old_text_size = 0, preceding_new_text_size = 0\<rparr>"

definition stitched_layer :: "patch_term Layer" where
  "stitched_layer =
     \<lparr>patch = Changes [change_LF], extent_m = Point 1 0, size_m = 3, snapshot_count = 0,
      is_first = True, is_last = True\<rparr>"

definition stitched_buffer :: "patch_term TextBuffer" where
  "stitched_buffer = \<lparr>base_text = [0x61, CR], top_layer = stitched_layer, lower_layers = []\<rparr>"

text \<open>An iterator at the start of the first of two chunks that split a surrogate pair.\<close>

definition split_pair :: Iterator where
  "split_pair =
     \<lparr>chunks = [TextSlice_of [0xD83D], TextSlice_of [0xDE01]], chunk_index = 0,
      chunk_begin = Some 0, chunk_end = Some 1, chunk_iterator = Some 0\<rparr>"

text \<open>
  Scenario 8.3.4 of the spec: \<open>abc\<close>, a snapshot, then the edit of \<open>(0,1)..(0,2)\<close> to
  \<open>BB\<close>.
\<close>

definition fresh_abc :: "patch_term TextBuffer" where
  "fresh_abc = TextBuffer_new term_ops text_abc"

definition pinned_abc :: "patch_term TextBuffer" where
  "pinned_abc =
     \<lparr>base_text = text_abc,
      top_layer = \<lparr>patch = Changes [], extent_m = Point 0 3, size_m = 3,
                   snapshot_count = 0, is_first = False, is_last = True\<rparr>,
      lower_layers = [\<lparr>patch = Changes [], extent_m = Point 0 3, size_m = 3,
                       snapshot_count = 1, is_first = True, is_last = False\<rparr>]\<rparr>"

definition edited_abc :: "patch_term TextBuffer" where
  "edited_abc =
     pinned_abc\<lparr>top_layer :=
       \<lparr>patch = Changes [change_BB], extent_m = Point 0 4, size_m = 4,
        snapshot_count = 0, is_first = False, is_last = True\<rparr>\<rparr>"













text \<open>
  \<open>abc\<close> after \<open>set_text_in_range({(0,1), (0,10)}, "X")\<close>, a range that ends past the end
  of the buffer.
\<close>

definition overlong_edit :: "patch_term TextBuffer result" where
  "overlong_edit = set_text_in_range term_ops (Range (Point 0 1) (Point 0 10)) [0x58] fresh_abc"

definition overlong_buffer :: "patch_term TextBuffer" where
  "overlong_buffer =
     \<lparr>base_text = text_abc,
      top_layer =
        \<lparr>patch = Changes
           [\<lparr>old_start = Point 0 1, old_end = Point 0 10,
             new_start = Point 0 1, new_end = Point 0 2,
             new_text = Some [0x58], old_text_size = 2,
             preceding_old_text_size = 0, preceding_new_text_size = 0\<rparr>],
         extent_m = Point 0 4294967291, size_m = 2, snapshot_count = 0,
         is_first = True, is_last = True\<rparr>,
      lower_layers = []\<rparr>"





text \<open>
  A first layer on top of the chain that a snapshot pins: \<open>create_snapshot\<close> always
  pushes a layer above the first layer it pins, so no call sequence of the snapshot
  protocol leaves this state, but \<open>reset_base_text\<close> accepts it.
\<close>

definition pinned_first_buffer :: "patch_term TextBuffer" where
  "pinned_first_buffer =
     \<lparr>base_text = text_abc,
      top_layer = \<lparr>patch = Changes [change_BB], extent_m = Point 0 4, size_m = 4,
                   snapshot_count = 1, is_first = True, is_last = True\<rparr>,
      lower_layers = []\<rparr>"

section \<open>Sequences of edits and of chunks\<close>

text \<open>The edits of the buffer's interface, and a sequence of them applied in order.\<close>

datatype edit = Set_text_in_range Range Text | Set_text Text



text \<open>
  A callback of \<open>for_each_chunk_in_range\<close> called on a sequence of chunks in order, up to
  the first call that returns true.
\<close>

fun run_callback :: "'st callback \<Rightarrow> TextSlice list \<Rightarrow> 'st \<Rightarrow> bool \<times> 'st" where
  "run_callback callback [] st = (False, st)"
| "run_callback callback (c # cs) st =
     (case callback c st of
        (True, st') \<Rightarrow> (True, st')
      | (False, st') \<Rightarrow> run_callback callback cs st')"

text \<open>
  What \<open>create_snapshot\<close> leaves open. A snapshot reads the layer it pins with
  \<open>is_last\<close> cleared, so \<open>clip_position_\<close> takes the other lookup: \<open>pin_keeps_clip\<close> says
  that this returns the same for a point. When \<open>create_snapshot\<close> pins the layer below a
  top layer without changes, \<open>text()\<close> went through that top layer and clipped twice:
  \<open>no_change_in\<close> says that the lookups find nothing in a patch, \<open>clip_is_fixed\<close> that
  the layers clip a point to a point they clip to itself (invariant 8.1.4 of the spec).
  \<open>snapshot_reads_alike\<close> puts this together for the two points \<open>text()\<close> clips, \<open>(0,0)\<close>
  and \<open>extent()\<close>.
\<close>

definition no_change_in :: "'p patch_ops \<Rightarrow> 'p \<Rightarrow> bool" where
  "no_change_in ops p \<longleftrightarrow>
     (\<forall>q. find_change_for_new_position ops p q = None \<and>
          change_for_new_position ops p q = None \<and>
          find_change_ending_after_new_position ops p q = None)"

definition clip_is_fixed :: "'p patch_ops \<Rightarrow> Text \<Rightarrow> 'p Layer list \<Rightarrow> Point \<Rightarrow> bool" where
  "clip_is_fixed ops bt ls q \<longleftrightarrow>
     (\<forall>r. Layer_clip_position ops bt ls q = Inr r \<longrightarrow>
          Layer_clip_position ops bt ls (position r) = Inr r)"

definition pin_keeps_clip :: "'p patch_ops \<Rightarrow> 'p TextBuffer \<Rightarrow> Point \<Rightarrow> bool" where
  "pin_keeps_clip ops b q \<longleftrightarrow>
     Layer_clip_position ops (base_text b)
       ((top_layer b)\<lparr>is_last := False\<rparr> # lower_layers b) q =
     Layer_clip_position ops (base_text b) (top_layer b # lower_layers b) q"


text \<open>
  The buffers that calls of the interface produce from a new buffer. Deserialization may
  store any patch, size and extent in an unedited first layer.
\<close>

inductive reachable :: "'p patch_ops \<Rightarrow> 'p TextBuffer \<Rightarrow> bool" for ops :: "'p patch_ops" where
  new: "reachable ops (TextBuffer_new ops t)"
| edit: "reachable ops b \<Longrightarrow> set_text_in_range ops r t b = Inr b' \<Longrightarrow> reachable ops b'"
| snapshot: "reachable ops b \<Longrightarrow> create_snapshot ops b = Inr (s, b') \<Longrightarrow> reachable ops b'"
| destroy: "reachable ops b \<Longrightarrow> Snapshot_destroy ops b s = Inr b' \<Longrightarrow> reachable ops b'"
| reset: "reachable ops b \<Longrightarrow> reachable ops (snd (reset_base_text ops t b))"
| flush: "reachable ops b \<Longrightarrow> flush_outstanding_changes ops b = Inr (ok, b') \<Longrightarrow>
          reachable ops b'"
| deserialize: "reachable ops b \<Longrightarrow> is_first (top_layer b) \<Longrightarrow>
          get_change_count ops (patch (top_layer b)) = 0 \<Longrightarrow>
          reachable ops (b\<lparr>top_layer := (top_layer b)\<lparr>patch := p, size_m := n, extent_m := e\<rparr>\<rparr>)"

section \<open>Basic facts\<close>

lemma bind_Inr [simp]: "bind (Inr x) f = f x"
  by (simp add: bind_def)

lemma bind_Inl [simp]: "bind (Inl e) f = Inl e"
  by (simp add: bind_def)

lemma layer_view_Cons [simp]:
  "parent_character_at (layer_view ops bt (l # ls)) =
     character_at_T ops (previous_view ops bt l ls) l"
  "parent_clip_position (layer_view ops bt (l # ls)) =
     clip_position_T ops (previous_view ops bt l ls) l"
  "parent_size (layer_view ops bt (l # ls)) = size_m l"
  "parent_extent (layer_view ops bt (l # ls)) = extent_m l"
  by (simp_all add: previous_view_def Layer_as_parent_def)

declare layer_view.simps(2) [simp del]

lemma Layer_character_at_Cons:
  "Layer_character_at ops bt (l # ls) = character_at_T ops (previous_view ops bt l ls) l"
  by (simp add: Layer_character_at_def)

lemma Layer_clip_position_Cons:
  "Layer_clip_position ops bt (l # ls) = clip_position_T ops (previous_view ops bt l ls) l"
  by (simp add: Layer_clip_position_def)

section \<open>Facts about points and texts\<close>

lemma unat_of_nat32: "n < 2 ^ 32 \<Longrightarrow> unat (of_nat n :: u32) = n"
  by (simp add: unsigned_of_nat take_bit_nat_eq_self)


lemma last_row_length_le: "last_row_length t \<le> length t"
  unfolding last_row_length_def by (metis length_rev length_takeWhile_le)

lemma last_row_length_snoc: "last_row_length (xs @ [c]) = (if c = LF then 0 else Suc (last_row_length xs))"
  by (simp add: last_row_length_def)

lemma line_breaks_snoc: "line_breaks (xs @ [c]) = (if c = LF then Suc (line_breaks xs) else line_breaks xs)"
  by (simp add: line_breaks_def)

lemma row_start_append_le:
  "row_start xs r = Some s \<Longrightarrow> row_start (xs @ ys) r = Some s"
  by (induction xs r arbitrary: s rule: row_start.induct) (auto)

lemma row_start_after_LF:
  "row_start (xs @ LF # ys) (Suc (line_breaks xs)) = Some (Suc (length xs))"
  by (induction xs) (auto simp: line_breaks_def)

lemma line_breaks_le: "line_breaks t \<le> length t"
  by (simp add: line_breaks_def)

lemma row_start_line_breaks: "row_start xs (line_breaks xs) = Some (length xs - last_row_length xs)"
proof (induction xs rule: rev_induct)
  case Nil
  then show ?case by (simp add: line_breaks_def last_row_length_def)
next
  case (snoc c xs)
  show ?case
  proof (cases "c = LF")
    case True
    then show ?thesis using row_start_after_LF [of xs "[]"] by (simp add: line_breaks_snoc last_row_length_snoc)
  next
    case False
    then show ?thesis using row_start_append_le [OF snoc, of "[c]"] last_row_length_le [of xs]
      by (simp add: line_breaks_snoc last_row_length_snoc)
  qed
qed

lemma take1_LF: "take (Suc 0) xs = [LF] \<Longrightarrow> LF \<in> set xs"
  by (cases xs) auto

lemma row_length_no_LF: "LF \<notin> set xs \<Longrightarrow> row_length xs = length xs"
  by (induction xs) (auto dest: take1_LF)

lemma last_row_no_LF: "LF \<notin> set (drop (length t - last_row_length t) t)"
proof -
  have "drop (length t - last_row_length t) t = rev (take (last_row_length t) (rev t))"
    by (simp add: rev_take)
  also have "take (last_row_length t) (rev t) = takeWhile (\<lambda>c. c \<noteq> LF) (rev t)"
    unfolding last_row_length_def by (metis takeWhile_eq_take)
  finally show ?thesis
    by (auto dest: set_takeWhileD)
qed

lemma splits_pair_end [simp]: "\<not> splits_pair t (length t)"
  by (simp add: splits_pair_def)

lemma splits_pair_origin [simp]: "\<not> splits_pair t 0"
  by (simp add: splits_pair_def)

lemma not_trailing_CR [simp]: "\<not> trailing_surrogate CR"
  by (simp add: trailing_surrogate_def CR_def)

lemma not_leading_CR [simp]: "\<not> leading_surrogate CR"
  by (simp add: leading_surrogate_def CR_def)

lemma not_leading_LF [simp]: "\<not> leading_surrogate LF"
  by (simp add: leading_surrogate_def LF_def)

lemma not_trailing_LF [simp]: "\<not> trailing_surrogate LF"
  by (simp add: trailing_surrogate_def LF_def)

lemma not_leading_and_trailing: "leading_surrogate c \<Longrightarrow> \<not> trailing_surrogate c"
  by (auto simp: leading_surrogate_def trailing_surrogate_def word_le_nat_alt)

lemma Text_clip_position_extent:
  assumes "length t < 2 ^ 32"
  shows "Text_clip_position t (Text_extent t) = ClipResult (Text_extent t) (Text_size t)"
proof -
  have r: "line_breaks t < 2 ^ 32" "last_row_length t < 2 ^ 32"
    using assms last_row_length_le [of t] line_breaks_le [of t] by auto
  have e: "Text_extent t = Point (of_nat (line_breaks t)) (of_nat (last_row_length t))"
    by (simp add: Text_extent_def line_breaks_def last_row_length_def)
  show ?thesis
    using r last_row_length_le [of t]
    by (simp add: e Text_clip_position_def unat_of_nat32 row_start_line_breaks
          row_length_no_LF [OF last_row_no_LF] Text_size_def)
qed

lemma Text_clip_position_origin: "Text_clip_position t (Point 0 0) = ClipResult (Point 0 0) 0"
  by (simp add: Text_clip_position_def)









lemma row_start_origin: "row_start t r = Some 0 \<Longrightarrow> r = 0"
  by (induction t r rule: row_start.induct) auto

lemma row_start_after_break:
  "row_start t r = Some s \<Longrightarrow> 0 < s \<Longrightarrow> t ! (s - 1) = LF"
proof (induction t r arbitrary: s rule: row_start.induct)
  case (3 c cs r)
  from "3.prems"(1) obtain s' where s': "row_start cs (if c = LF then r else Suc r) = Some s'"
    and s: "s = Suc s'"
    by auto
  show ?case
  proof (cases s')
    case 0
    from s' [unfolded 0] have "(if c = LF then r else Suc r) = 0"
      by (rule row_start_origin)
    then have "c = LF"
      by (auto split: if_splits)
    with s 0 show ?thesis by simp
  next
    case (Suc k)
    with "3.IH" [OF s'] s show ?thesis by simp
  qed
qed simp_all

lemma splits_pair_row_start: "row_start t r = Some s \<Longrightarrow> \<not> splits_pair t s"
  by (cases "0 < s") (auto simp: splits_pair_def dest: row_start_after_break)

lemma splits_pair_before: "splits_pair t n \<Longrightarrow> \<not> splits_pair t (n - 1)"
  by (auto simp: splits_pair_def dest: not_leading_and_trailing)

lemma Text_clip_position_idem:
  assumes "length t < 2 ^ 32"
  shows "Text_clip_position t (position (Text_clip_position t q)) = Text_clip_position t q"
proof (cases "row_start t (unat (row q))")
  case None
  then show ?thesis
    using assms by (simp add: Text_clip_position_def Text_clip_position_extent [unfolded Text_clip_position_def])
next
  case (Some s)
  let ?c = "min (unat (column q)) (row_length (drop s t))"
  have "unat (column q) < 2 ^ 32"
    using unsigned_less [of "column q", where 'a = nat] by simp
  then have c: "?c < 2 ^ 32"
    by (simp add: min_def)
  show ?thesis
  proof (cases "splits_pair t (s + ?c)")
    case True
    with splits_pair_row_start [OF Some] have pos: "0 < ?c"
      by (cases "?c = 0") auto
    from splits_pair_before [OF True] pos have n: "\<not> splits_pair t (s + (?c - 1))"
      by simp
    have "unat (of_nat (?c - 1) :: u32) = ?c - 1"
      using c by (intro unat_of_nat32) simp
    moreover have "min (?c - 1) (row_length (drop s t)) = ?c - 1"
      by simp
    ultimately show ?thesis
      using Some True n by (simp add: Text_clip_position_def Let_def)
  next
    case False
    then show ?thesis
      using Some c by (simp add: Text_clip_position_def Let_def unat_of_nat32)
  qed
qed

lemma unchanged_first_layer_clip:
  assumes "is_first l"
    and "\<And>p. find_change_for_new_position ops (patch l) p = None"
    and "\<And>p. change_for_new_position ops (patch l) p = None"
  shows "Layer_clip_position ops bt (l # ls) q = Inr (Text_clip_position bt q)"
  using assms by (simp add: Layer_clip_position_Cons clip_position_T_def previous_view_def BaseLayer_def)

lemma point_less_irrefl [simp]: "\<not> point_less p p"
  by (simp add: point_less_def)

lemma not_less_origin [simp]: "\<not> point_less p (Point 0 0)"
  by (simp add: point_less_def)

lemma traverse_origin [simp]: "traverse (Point 0 0) p = p"
  by (cases p) (simp add: traverse_def)

lemma traversal_origin [simp]: "traversal p (Point 0 0) = p"
  by (cases p) (auto simp: traversal_def)

lemma traverse_traversal [simp]: "traverse a (traversal b a) = b"
  by (cases a; cases b) (auto simp: traverse_def traversal_def)

lemma point_min_same [simp]: "point_min p p = p"
  by (simp add: point_min_def)

lemma point_min_origin [simp]: "point_min p (Point 0 0) = Point 0 0"
  by (auto simp: point_min_def point_le_def)

lemma Text_extent_origin:
  assumes "length t < 2 ^ 32" and "Text_extent t = Point 0 0"
  shows "t = []"
proof -
  have e: "Text_extent t = Point (of_nat (line_breaks t)) (of_nat (last_row_length t))"
    by (simp add: Text_extent_def line_breaks_def last_row_length_def)
  have "unat (of_nat (line_breaks t) :: u32) = 0" "unat (of_nat (last_row_length t) :: u32) = 0"
    using assms(2) by (simp_all add: e)
  then have z: "line_breaks t = 0" "last_row_length t = 0"
    using assms(1) line_breaks_le [of t] last_row_length_le [of t] by (simp_all add: unat_of_nat32)
  from z(1) have "LF \<notin> set t"
    by (auto simp: line_breaks_def filter_empty_conv)
  then have tw: "takeWhile (\<lambda>c. c \<noteq> LF) (rev t) = rev t"
    by (auto simp: takeWhile_eq_all_conv)
  have "last_row_length t = length (rev t)"
    unfolding last_row_length_def by (simp only: tw)
  then have "last_row_length t = length t"
    by simp
  with z(2) show ?thesis by simp
qed

lemma whole_slice_units:
  assumes "length t < 2 ^ 32"
  shows "slice_units (slice (TextSlice_of t) (Range (Point 0 0) (Text_extent t))) = t"
  using assms
  by (simp add: slice_def prefix_def suffix_def TextSlice_of_def slice_units_def
        start_offset_def end_offset_def Text_offset_for_position_def
        Text_clip_position_extent Text_clip_position_origin Text_size_def unat_of_nat32)

lemma chunk_loop_done [simp]:
  "\<not> point_less cur goal \<Longrightarrow> chunk_loop ops pf pt goal cb fuel cur base ch st = Inr (False, st)"
  by (cases fuel) simp_all

lemma unchanged_first_layer_text:
  fixes ops :: "'p patch_ops" and l :: "'p Layer"
  assumes "is_first l"
    and "\<And>p. find_change_for_new_position ops (patch l) p = None"
    and "\<And>p. change_for_new_position ops (patch l) p = None"
    and "\<And>p. find_change_ending_after_new_position ops (patch l) p = None"
    and "extent_m l = Text_extent bt"
    and "length bt < 2 ^ 32"
    and "0 < fuel"
  shows "Layer_text_in_range ops fuel bt (l # ls) (Range (Point 0 0) (extent_m l)) = Inr bt"
proof (cases "point_less (Point 0 0) (Text_extent bt)")
  case True
  obtain n where n: "fuel = Suc n" using assms(7) by (cases fuel) auto
  show ?thesis
    using assms(1-6) True
    by (simp add: Layer_text_in_range_def for_each_chunk_in_range_T_def clip_position_T_def
          previous_view_def BaseLayer_def n visit_change_def Text_clip_position_extent
          Text_clip_position_origin BaseLayer_for_each_chunk_in_range_def Text_append_def
          whole_slice_units)
next
  case False
  then have "Text_extent bt = Point 0 0"
    by (cases "Text_extent bt") (auto simp: point_less_def word_gt_0)
  then have "bt = []" using assms(6) by (rule Text_extent_origin[rotated])
  then show ?thesis
    using assms(1-5) False
    by (simp add: Layer_text_in_range_def for_each_chunk_in_range_T_def clip_position_T_def
          previous_view_def BaseLayer_def Text_clip_position_extent
          Text_clip_position_origin)
qed

section \<open>Chunk iteration and its callbacks\<close>

lemma run_callback_append:
  "run_callback cb (xs @ ys) st =
     (case run_callback cb xs st of (True, st') \<Rightarrow> (True, st') | (False, st') \<Rightarrow> run_callback cb ys st')"
  by (induction xs arbitrary: st) (auto split: prod.splits bool.splits)

lemma run_callback_single: "run_callback cb [s] st = cb s st"
  by (cases "cb s st") (auto split: bool.splits)

lemma visit_change_collect:
  assumes "visit_change goal (\<lambda>s res. (False, res @ [s])) ch cur base acc = Inr stepC"
  shows "\<exists>cs. (case stepC of
                 Return b acc' \<Rightarrow> \<not> b \<and> acc' = acc @ cs \<and>
                   (\<forall>cb st. visit_change goal cb ch cur base st =
                      Inr (case run_callback cb cs st of
                             (True, st') \<Rightarrow> Return True st'
                           | (False, st') \<Rightarrow> Return False st'))
               | Continue c' b' acc' \<Rightarrow> acc' = acc @ cs \<and>
                   (\<forall>cb st. visit_change goal cb ch cur base st =
                      Inr (case run_callback cb cs st of
                             (True, st') \<Rightarrow> Return True st'
                           | (False, st') \<Rightarrow> Continue c' b' st')))"
proof (cases ch)
  case None
  with assms show ?thesis
    by (intro exI [of _ "[]"]) (auto simp: visit_change_def)
next
  case (Some c)
  show ?thesis
  proof (cases "point_less cur (new_end c)")
    case False
    with Some assms show ?thesis
      by (intro exI [of _ "[]"]) (auto simp: visit_change_def)
  next
    case True
    with Some assms obtain t where t: "new_text c = Some t"
      by (cases "new_text c") (auto simp: visit_change_def deref_text_def)
    let ?s = "suffix (prefix (TextSlice_of t)
                 (point_min (traversal goal (new_start c))
                            (traversal (new_end c) (new_start c))))
               (traversal cur (new_start c))"
    from Some True t assms show ?thesis
      by (intro exI [of _ "[?s]"])
         (auto simp: visit_change_def deref_text_def run_callback_single Let_def
               split: if_splits prod.splits bool.splits)
  qed
qed


lemma chunk_loop_collect:
  fixes pfC :: "TextSlice list for_each" and pf :: "'a for_each"
  assumes pf: "\<And>a b acc r. pfC a b (\<lambda>s res. (False, res @ [s])) acc = Inr r \<Longrightarrow>
                 \<exists>cs. r = (False, acc @ cs) \<and> (\<forall>cb st. pf a b cb st = Inr (run_callback cb cs st))"
    and run: "chunk_loop ops pfC pt goal (\<lambda>s res. (False, res @ [s])) fuel cur base ch acc = Inr r"
  shows "\<exists>cs. r = (False, acc @ cs) \<and>
              (\<forall>cb st. chunk_loop ops pf pt goal cb fuel cur base ch st =
                         Inr (run_callback cb cs st))"
  using run
proof (induction fuel arbitrary: cur base ch acc r)
  case 0
  then show ?case
    by (intro exI [of _ "[]"]) (auto split: if_splits)
next
  case (Suc n)
  show ?case
  proof (cases "point_less cur goal")
    case False
    with Suc.prems show ?thesis
      by (intro exI [of _ "[]"]) auto
  next
    case True
    let ?collect = "\<lambda>s res. (False, res @ [s :: TextSlice])"
    from Suc.prems True obtain stepC where
      v: "visit_change goal ?collect ch cur base acc = Inr stepC"
      by (cases "visit_change goal ?collect ch cur base acc") auto
    from visit_change_collect [OF v] obtain cs1 where cs1:
      "case stepC of
         Return b acc' \<Rightarrow> \<not> b \<and> acc' = acc @ cs1 \<and>
           (\<forall>(cb :: 'a callback) st. visit_change goal cb ch cur base st =
              Inr (case run_callback cb cs1 st of
                     (True, st') \<Rightarrow> Return True st'
                   | (False, st') \<Rightarrow> Return False st'))
       | Continue c' b' acc' \<Rightarrow> acc' = acc @ cs1 \<and>
           (\<forall>(cb :: 'a callback) st. visit_change goal cb ch cur base st =
              Inr (case run_callback cb cs1 st of
                     (True, st') \<Rightarrow> Return True st'
                   | (False, st') \<Rightarrow> Continue c' b' st'))"
      by blast
    show ?thesis
    proof (cases stepC)
      case (Return b acc')
      with cs1 v Suc.prems True have "r = (False, acc @ cs1)"
        by auto
      moreover from cs1 Return have
        vis: "\<And>cb st. visit_change goal cb ch cur base st =
              Inr (case run_callback cb cs1 st of
                     (True, st') \<Rightarrow> Return True st'
                   | (False, st') \<Rightarrow> Return False (st' :: 'a))"
        by auto
      have "chunk_loop ops pf pt goal cb (Suc n) cur base ch st =
                       Inr (run_callback cb cs1 st)" for cb :: "'a callback" and st
      proof (cases "run_callback cb cs1 st")
        case (Pair a st1)
        with True show ?thesis
          by (cases a) (simp_all add: vis)
      qed
      ultimately show ?thesis by blast
    next
      case (Continue c' b' acc')
      let ?change' = "find_change_ending_after_new_position ops pt c'"
      let ?next = "case ?change' of Some c \<Rightarrow> point_min goal (new_start c) | None \<Rightarrow> goal"
      let ?nbase = "case ?change' of
                      Some c \<Rightarrow> point_min (traverse b' (traversal goal c')) (old_start c)
                    | None \<Rightarrow> traverse b' (traversal goal c')"
      from cs1 Continue have acc': "acc' = acc @ cs1"
        and vis: "\<And>cb st. visit_change goal cb ch cur base st =
              Inr (case run_callback cb cs1 st of
                     (True, st') \<Rightarrow> Return True st'
                   | (False, st') \<Rightarrow> Continue c' b' (st' :: 'a))"
        by auto
      from Suc.prems True v Continue obtain r2 where
        r2: "pfC b' ?nbase ?collect acc' = Inr r2"
        by (cases "pfC b' ?nbase ?collect acc'") (auto simp: Let_def)
      from pf [OF r2] obtain cs2 where cs2: "r2 = (False, acc' @ cs2)"
        "\<And>cb st. pf b' ?nbase cb st = Inr (run_callback cb cs2 st)"
        by blast
      from Suc.prems True v Continue r2 cs2(1) have
        rec: "chunk_loop ops pfC pt goal ?collect n ?next ?nbase ?change' (acc' @ cs2) = Inr r"
        by (simp add: Let_def)
      from Suc.IH [OF rec] obtain cs3 where cs3: "r = (False, (acc' @ cs2) @ cs3)"
        "\<And>cb st. chunk_loop ops pf pt goal cb n ?next ?nbase ?change' st =
                    Inr (run_callback cb cs3 (st :: 'a))"
        by blast
      have "chunk_loop ops pf pt goal cb (Suc n) cur base ch st =
              Inr (run_callback cb (cs1 @ cs2 @ cs3) st)" for cb :: "'a callback" and st
      proof (cases "run_callback cb cs1 st")
        case (Pair a st1)
        show ?thesis
        proof (cases a)
          case True
          with Pair \<open>point_less cur goal\<close> show ?thesis
            by (simp add: vis run_callback_append)
        next
          case False
          note a = this
          show ?thesis
          proof (cases "run_callback cb cs2 st1")
            case (Pair a2 st2)
            with a \<open>run_callback cb cs1 st = (a, st1)\<close> \<open>point_less cur goal\<close> show ?thesis
              by (cases a2) (simp_all add: vis run_callback_append cs2(2) cs3(2) Let_def)
          qed
        qed
      qed
      with cs3(1) acc' show ?thesis
        by (intro exI [of _ "cs1 @ cs2 @ cs3"]) simp
    qed
  qed
qed

lemma Layer_for_each_collect:
  fixes ops :: "'p patch_ops"
  assumes "Layer_for_each_chunk_in_range ops fuel bt ls a b (\<lambda>s res. (False, res @ [s])) acc = Inr r"
  shows "\<exists>cs. r = (False, acc @ cs) \<and>
           (\<forall>(cb :: 'a callback) st.
              Layer_for_each_chunk_in_range ops fuel bt ls a b cb st =
                Inr (run_callback cb cs st))"
  using assms
proof (induction ls arbitrary: a b acc r)
  case Nil
  then show ?case by simp
next
  case (Cons l ls)
  let ?collect = "\<lambda>s res. (False, res @ [s :: TextSlice])"
  let ?pfC = "if is_first l then BaseLayer_for_each_chunk_in_range bt
              else Layer_for_each_chunk_in_range ops fuel bt ls"
  let ?pf = "(if is_first l then BaseLayer_for_each_chunk_in_range bt
              else Layer_for_each_chunk_in_range ops fuel bt ls) :: 'a for_each"
  have pf: "\<exists>cs. r = (False, acc @ cs) \<and> (\<forall>cb st. ?pf a b cb st = Inr (run_callback cb cs st))"
    if "?pfC a b ?collect acc = Inr r" for a b acc r
  proof (cases "is_first l")
    case True
    with that show ?thesis
      by (intro exI [of _ "[slice (TextSlice_of bt) (Range a b)]"])
         (auto simp: BaseLayer_for_each_chunk_in_range_def run_callback_single
               simp del: run_callback.simps)
  next
    case False
    with that Cons.IH [of a b acc r] show ?thesis by simp
  qed
  from Cons.prems obtain g c where
    g: "clip_position_T ops (previous_view ops bt l ls) l b = Inr g"
    and c: "clip_position_T ops (previous_view ops bt l ls) l a = Inr c"
    and run: "chunk_loop ops ?pfC (patch l) (position g) ?collect fuel (position c) (position c)
                (find_change_for_new_position ops (patch l) (position c)) acc = Inr r"
    by (auto simp: for_each_chunk_in_range_T_def bind_def split: sum.splits)
  from chunk_loop_collect [where pf = ?pf, OF pf run]
  show ?case
    by (simp add: for_each_chunk_in_range_T_def g c)
qed


lemma run_position_for_offset_past:
  "sum_list (map (\<lambda>c. unat (slice_size c)) cs) + unat off < unat goal \<Longrightarrow>
   run_callback (position_for_offset_callback goal) cs (pos, off) =
     (False, (foldl traverse pos (map slice_extent cs),
              off + of_nat (sum_list (map (\<lambda>c. unat (slice_size c)) cs))))"
proof (induction cs arbitrary: pos off)
  case Nil
  then show ?case by simp
next
  case (Cons c cs)
  have "unat off + unat (slice_size c) < unat goal"
    using Cons.prems by simp
  moreover have "unat goal < 2 ^ 32"
    using unsigned_less [of goal] by simp
  ultimately have u: "unat (off + slice_size c) = unat off + unat (slice_size c)"
    by (simp add: unat_add_lem [THEN iffD1])
  then have small: "\<not> goal \<le> off + slice_size c"
    using \<open>unat off + unat (slice_size c) < unat goal\<close> by (simp add: word_le_nat_alt)
  have "sum_list (map (\<lambda>c. unat (slice_size c)) cs) + unat (off + slice_size c) < unat goal"
    using Cons.prems u by simp
  from Cons.IH [OF this, of "traverse pos (slice_extent c)"] small
  show ?case
    by (simp add: position_for_offset_callback_def add.assoc)
qed


text \<open>Scenario 8.3.4 of the spec, up to the drop of the snapshot, in both instances.\<close>

lemma scenario_snapshot_then_edit:
  "create_snapshot term_ops fresh_abc = Inr (Snapshot 0, pinned_abc) \<and>
   set_text_in_range term_ops (Range (Point 0 1) (Point 0 2)) text_BB pinned_abc =
     Inr edited_abc \<and>
   Snapshot_text term_ops 2 edited_abc (Snapshot 0) = Inr text_abc \<and>
   TextBuffer_text term_ops 2 edited_abc = Inr [0x61, 0x42, 0x42, 0x63] \<and>
   create_snapshot contract_ops fresh_abc = Inr (Snapshot 0, pinned_abc) \<and>
   set_text_in_range contract_ops (Range (Point 0 1) (Point 0 2)) text_BB pinned_abc =
     Inr edited_abc \<and>
   Snapshot_text contract_ops 2 edited_abc (Snapshot 0) = Inr text_abc \<and>
   TextBuffer_text contract_ops 2 edited_abc = Inr [0x61, 0x42, 0x42, 0x63]"
proof -
  have "create_snapshot term_ops fresh_abc = Inr (Snapshot 0, pinned_abc)"
    by code_simp
  moreover have "set_text_in_range term_ops (Range (Point 0 1) (Point 0 2)) text_BB pinned_abc =
                   Inr edited_abc"
    by code_simp
  moreover have "Snapshot_text term_ops 2 edited_abc (Snapshot 0) = Inr text_abc"
    by code_simp
  moreover have "TextBuffer_text term_ops 2 edited_abc = Inr [0x61, 0x42, 0x42, 0x63]"
    by code_simp
  moreover have "create_snapshot contract_ops fresh_abc = Inr (Snapshot 0, pinned_abc)"
    by code_simp
  moreover have "set_text_in_range contract_ops (Range (Point 0 1) (Point 0 2)) text_BB
                   pinned_abc = Inr edited_abc"
    by code_simp
  moreover have "Snapshot_text contract_ops 2 edited_abc (Snapshot 0) = Inr text_abc"
    by code_simp
  moreover have "TextBuffer_text contract_ops 2 edited_abc = Inr [0x61, 0x42, 0x42, 0x63]"
    by code_simp
  ultimately show ?thesis by simp
qed



section \<open>Properties of the iterator\<close>

text \<open>
  C9. Dereferencing the iterator at a high surrogate that is the last code unit of its
  chunk returns the raw unit, whatever the next chunk starts with: a surrogate pair split
  across a chunk boundary is not combined.
\<close>

theorem dereference_high_surrogate_at_chunk_end:
  assumes "unit_at it (chunk_iterator it) = Inr c"
    and "is_high_surrogate c"
    and "chunk_iterator it = Some i"
    and "chunk_end it = Some (Suc i)"
  shows "dereference it = Inr (ucast c)"
  using assms by (simp add: dereference_def iter_next_def)

theorem dereference_high_surrogate_at_chunk_end_witness:
  "unit_at split_pair (chunk_iterator split_pair) = Inr 0xD83D \<and> is_high_surrogate 0xD83D \<and>
   chunk_iterator split_pair = Some 0 \<and> chunk_end split_pair = Some (Suc 0) \<and>
   bind (chunks_at (chunks split_pair) 1) (\<lambda>c. Inr (slice_units c)) = Inr [0xDE01] \<and>
   is_low_surrogate 0xDE01 \<and>
   dereference split_pair = Inr 0xD83D"
proof -
  have h: "unit_at split_pair (chunk_iterator split_pair) = Inr 0xD83D"
    "is_high_surrogate 0xD83D" "chunk_iterator split_pair = Some 0"
    "chunk_end split_pair = Some (Suc 0)"
    by (simp_all add: split_pair_def unit_at_def TextSlice_of_def is_high_surrogate_def)
  have "bind (chunks_at (chunks split_pair) 1) (\<lambda>c. Inr (slice_units c)) = Inr [0xDE01]"
    by (simp add: split_pair_def chunks_at_def slice_units_def TextSlice_of_def
          start_offset_def end_offset_def Text_offset_for_position_def Text_clip_position_def
          splits_pair_def
          Text_extent_def line_breaks_def last_row_length_def LF_def CR_def)
  moreover have "is_low_surrogate 0xDE01"
    by (simp add: is_low_surrogate_def)
  ultimately show ?thesis
    using h dereference_high_surrogate_at_chunk_end [OF h] by simp
qed

text \<open>
  C10. Decrementing the iterator at the first code unit of the first chunk
  (\<open>chunk_index == 0\<close>, the chunk iterator at the chunk's begin) returns it unchanged.
\<close>

theorem decrement_at_start_is_noop:
  assumes "chunk_index it = 0" and "chunk_iterator it = chunk_begin it"
  shows "decrement it = Inr it"
  using assms by (simp add: decrement_def retreat_unit_def)

theorem decrement_at_start_is_noop_witness:
  "chunk_index split_pair = 0 \<and> chunk_iterator split_pair = chunk_begin split_pair \<and>
   decrement split_pair = Inr split_pair"
  using decrement_at_start_is_noop [of split_pair] by (simp add: split_pair_def)

section \<open>Properties of the layer's queries\<close>

lemmas ex_defs = middle_layer_def first_layer_def upper_layer_def change_BB_def change_bang_def
  text_abc_def text_BB_def term_ops_def preceding_change_of_def change_ending_after_def
  point_le_def point_less_def traverse_def traversal_def

text \<open>
  C4. \<open>character_at\<close> on a layer, with the change that \<open>find_change_for_new_position\<close>
  locates for the position: if it locates none, the parent's character at the position;
  if the position is before \<open>new_end\<close> of the change, the unit of \<open>new_text\<close> at
  \<open>position - new_start\<close>; if it is at or past \<open>new_end\<close>, the parent's character at
  \<open>old_end.traverse(position - new_end)\<close>. The parent is the base text for the first
  layer and the layer below for any other.
\<close>

theorem character_at_three_cases:
  fixes ops :: "'p patch_ops" and l :: "'p Layer" and bt :: Text and ls :: "'p Layer list"
  defines "parent \<equiv> (if is_first l then Text_at bt else Layer_character_at ops bt ls)"
  shows "(find_change_for_new_position ops (patch l) p = None \<longrightarrow>
            Layer_character_at ops bt (l # ls) p = parent p) \<and>
         (\<forall>c t. find_change_for_new_position ops (patch l) p = Some c \<and>
                 point_less p (new_end c) \<and> new_text c = Some t \<longrightarrow>
            Layer_character_at ops bt (l # ls) p = Text_at t (traversal p (new_start c))) \<and>
         (\<forall>c. find_change_for_new_position ops (patch l) p = Some c \<and>
                 \<not> point_less p (new_end c) \<longrightarrow>
            Layer_character_at ops bt (l # ls) p =
              parent (traverse (old_end c) (traversal p (new_end c))))"
  by (simp add: Layer_character_at_Cons character_at_T_def parent_def deref_text_def
        previous_view_def BaseLayer_def Layer_character_at_def)

theorem character_at_three_cases_witness:
  "find_change_for_new_position term_ops (patch middle_layer) (Point 0 0) = None \<and>
   Layer_character_at term_ops text_abc [middle_layer, first_layer] (Point 0 0) = Inr 0x61 \<and>
   find_change_for_new_position term_ops (patch middle_layer) (Point 0 2) = Some change_BB \<and>
   point_less (Point 0 2) (new_end change_BB) \<and>
   Layer_character_at term_ops text_abc [middle_layer, first_layer] (Point 0 2) = Inr 0x42 \<and>
   find_change_for_new_position term_ops (patch middle_layer) (Point 0 3) = Some change_BB \<and>
   \<not> point_less (Point 0 3) (new_end change_BB) \<and>
   Layer_character_at term_ops text_abc [middle_layer, first_layer] (Point 0 3) = Inr 0x63"
proof -
  have below: "Layer_character_at term_ops text_abc [first_layer] p = Text_at text_abc p" for p
    by (simp add: Layer_character_at_Cons character_at_T_def previous_view_def BaseLayer_def
          first_layer_def term_ops_def preceding_change_of_def)
  have f0: "find_change_for_new_position term_ops (patch middle_layer) (Point 0 0) = None"
    by (simp add: ex_defs)
  have f2: "find_change_for_new_position term_ops (patch middle_layer) (Point 0 2) = Some change_BB"
    by (simp add: ex_defs)
  have f3: "find_change_for_new_position term_ops (patch middle_layer) (Point 0 3) = Some change_BB"
    by (simp add: ex_defs)
  have l2: "point_less (Point 0 2) (new_end change_BB)" "new_text change_BB = Some text_BB"
    and l3: "\<not> point_less (Point 0 3) (new_end change_BB)"
    by (simp_all add: change_BB_def point_less_def)
  have at: "Text_at text_abc (Point 0 0) = Inr 0x61" "Text_at text_BB (Point 0 1) = Inr 0x42"
    "Text_at text_abc (Point 0 2) = Inr 0x63"
    by (simp_all add: Text_at_def text_abc_def text_BB_def)
  have t: "traversal (Point 0 2) (new_start change_BB) = Point 0 1"
    "traverse (old_end change_BB) (traversal (Point 0 3) (new_end change_BB)) = Point 0 2"
    by (simp_all add: change_BB_def traverse_def traversal_def)
  have nf: "\<not> is_first middle_layer" by (simp add: middle_layer_def)
  show ?thesis
    using character_at_three_cases [of term_ops middle_layer "Point 0 0" text_abc "[first_layer]"]
      character_at_three_cases [of term_ops middle_layer "Point 0 2" text_abc "[first_layer]"]
      character_at_three_cases [of term_ops middle_layer "Point 0 3" text_abc "[first_layer]"]
      f0 f2 f3 l2 l3 nf
    by (simp add: below at t)
qed

text \<open>
  C5. In \<open>clip_position\<close>, when the position lies before \<open>new_end\<close> of the preceding
  change, clips to offset 0 of the change's text, \<open>old_start.column > 0\<close>, the text begins
  with LF and the parent's character just before \<open>old_start\<close> is CR, the result is
  \<open>(previous_column(new_start), current_offset - 1)\<close>, where \<open>current_offset\<close> is the
  parent's offset of \<open>old_start\<close> plus \<open>preceding_new_text_size\<close> minus
  \<open>preceding_old_text_size\<close>.
\<close>

theorem clip_position_crlf_stitch_at_insertion_start:
  fixes ops :: "'p patch_ops" and l :: "'p Layer"
  assumes "(if is_last l then change_for_new_position ops (patch l) p
            else find_change_for_new_position ops (patch l) p) = Some c"
    and "point_less p (new_end c)"
    and "new_text c = Some (front # rest)"
    and "offset (Text_clip_position (front # rest) (traversal p (new_start c))) = 0"
    and "column (old_start c) > 0"
    and "front = LF"
    and "(if is_first l then Text_at bt else Layer_character_at ops bt ls)
           (previous_column (old_start c)) = Inr CR"
    and "(if is_first l then Inr (Text_clip_position bt (old_start c))
          else Layer_clip_position ops bt ls (old_start c)) = Inr base"
  shows "Layer_clip_position ops bt (l # ls) p =
           Inr (ClipResult (previous_column (new_start c))
                  (offset base + preceding_new_text_size c - preceding_old_text_size c - 1))"
  using assms
  by (simp add: Layer_clip_position_Cons clip_position_T_def clip_within_change_def
        deref_text_def Let_def previous_view_def BaseLayer_def Layer_character_at_def
        Layer_clip_position_def split: if_splits)

theorem clip_position_crlf_stitch_at_insertion_start_witness:
  "change_for_new_position term_ops (patch stitched_layer) (Point 0 2) = Some change_LF \<and>
   point_less (Point 0 2) (new_end change_LF) \<and>
   new_text change_LF = Some [LF] \<and>
   offset (Text_clip_position [LF] (traversal (Point 0 2) (new_start change_LF))) = 0 \<and>
   column (old_start change_LF) > 0 \<and>
   Text_at [0x61, CR] (previous_column (old_start change_LF)) = Inr CR \<and>
   Text_clip_position [0x61, CR] (old_start change_LF) = ClipResult (Point 0 2) 2 \<and>
   Layer_clip_position term_ops [0x61, CR] [stitched_layer] (Point 0 2) =
     Inr (ClipResult (Point 0 1) 1)"
proof -
  have h1: "(if is_last stitched_layer
             then change_for_new_position term_ops (patch stitched_layer) (Point 0 2)
             else find_change_for_new_position term_ops (patch stitched_layer) (Point 0 2)) =
            Some change_LF"
    by (simp add: stitched_layer_def term_ops_def preceding_change_of_def change_LF_def
          point_le_def)
  have h2: "point_less (Point 0 2) (new_end change_LF)"
    by (simp add: change_LF_def point_less_def)
  have h3: "new_text change_LF = Some (LF # [])"
    by (simp add: change_LF_def)
  have h4: "offset (Text_clip_position (LF # []) (traversal (Point 0 2) (new_start change_LF))) = 0"
    by (simp add: change_LF_def traversal_def Text_clip_position_def splits_pair_def)
  have h5: "column (old_start change_LF) > 0"
    by (simp add: change_LF_def)
  have h7: "(if is_first stitched_layer then Text_at [0x61, CR]
             else Layer_character_at term_ops [0x61, CR] [])
              (previous_column (old_start change_LF)) = Inr CR"
    by (simp add: stitched_layer_def change_LF_def previous_column_def Text_at_def)
  have h8: "(if is_first stitched_layer
             then Inr (Text_clip_position [0x61, CR] (old_start change_LF))
             else Layer_clip_position term_ops [0x61, CR] [] (old_start change_LF)) =
            Inr (ClipResult (Point 0 2) 2)"
    by (simp add: stitched_layer_def change_LF_def Text_clip_position_def splits_pair_def
          LF_def CR_def)
  from clip_position_crlf_stitch_at_insertion_start [OF h1 h2 h3 h4 h5 refl h7 h8]
  have "Layer_clip_position term_ops [0x61, CR] [stitched_layer] (Point 0 2) =
          Inr (ClipResult (Point 0 1) 1)"
    by (simp add: change_LF_def previous_column_def)
  then show ?thesis
    using h1 h2 h3 h4 h5 h7 h8 by (simp add: stitched_layer_def)
qed

section \<open>Properties of the buffer\<close>

text \<open>
  C7. \<open>reset_base_text\<close>, \<open>flush_outstanding_changes\<close>, \<open>serialize_outstanding_changes\<close>
  and \<open>deserialize_outstanding_changes\<close>, called while the top layer is not the first
  layer, return false and leave the buffer (base text, patch, cached size and extent) and
  the stream as they were; so does \<open>deserialize_outstanding_changes\<close> while the top
  layer's patch is not empty.
\<close>

theorem precondition_violations_return_false:
  "(\<not> is_first (top_layer b) \<longrightarrow>
      reset_base_text ops t b = (False, b) \<and>
      flush_outstanding_changes ops b = Inr (False, b) \<and>
      serialize_outstanding_changes io b w = (False, b, w) \<and>
      deserialize_outstanding_changes ops io b r = (False, b, r)) \<and>
   (get_change_count ops (patch (top_layer b)) > 0 \<longrightarrow>
      deserialize_outstanding_changes ops io b r = (False, b, r))"
  by (simp add: reset_base_text_def flush_outstanding_changes_def
        serialize_outstanding_changes_def deserialize_outstanding_changes_def)

theorem precondition_violations_return_false_witness:
  "\<not> is_first (top_layer three_layers) \<and>
   reset_base_text term_ops text_BB three_layers = (False, three_layers) \<and>
   flush_outstanding_changes term_ops three_layers = Inr (False, three_layers) \<and>
   serialize_outstanding_changes term_stream_ops three_layers [] = (False, three_layers, []) \<and>
   deserialize_outstanding_changes term_ops term_stream_ops three_layers
     [Patch_item (Changes []), U32_item 0, Point_item (Point 0 0)] =
     (False, three_layers, [Patch_item (Changes []), U32_item 0, Point_item (Point 0 0)]) \<and>
   is_first (top_layer stitched_buffer) \<and>
   get_change_count term_ops (patch (top_layer stitched_buffer)) > 0 \<and>
   deserialize_outstanding_changes term_ops term_stream_ops stitched_buffer
     [Patch_item (Changes []), U32_item 0, Point_item (Point 0 0)] =
     (False, stitched_buffer, [Patch_item (Changes []), U32_item 0, Point_item (Point 0 0)])"
proof -
  have a: "\<not> is_first (top_layer three_layers)"
    by (simp add: three_layers_def upper_layer_def)
  have b: "is_first (top_layer stitched_buffer)"
    "get_change_count term_ops (patch (top_layer stitched_buffer)) > 0"
    by (simp_all add: stitched_buffer_def stitched_layer_def term_ops_def)
  show ?thesis
    using a b
      precondition_violations_return_false
        [of three_layers term_ops text_BB term_stream_ops "[]"
            "[Patch_item (Changes []), U32_item 0, Point_item (Point 0 0)]"]
      precondition_violations_return_false
        [of stitched_buffer term_ops text_BB term_stream_ops "[]"
            "[Patch_item (Changes []), U32_item 0, Point_item (Point 0 0)]"]
    by simp
qed

lemma Snapshot_destroy_Inr:
  assumes "Snapshot_destroy ops b s = Inr b'"
  defines "i \<equiv> length (layers b) - Suc (layer_ref s)"
  defines "b1 \<equiv> set_layers b ((layers b)[i := (layers b ! i)\<lparr>snapshot_count :=
                     snapshot_count (layers b ! i) - 1\<rparr>])"
  shows "layer_ref s < length (layers b)" and "snapshot_count (layers b ! i) > 0"
    and "b' = b1 \<or> coalesce ops b1 = Inr b'"
proof -
  show 1: "layer_ref s < length (layers b)"
    using assms(1) unfolding Snapshot_destroy_def by (cases "layer_ref s < length (layers b)") simp_all
  show 2: "snapshot_count (layers b ! i) > 0"
    using assms(1) 1 unfolding Snapshot_destroy_def i_def Let_def
    by (cases "snapshot_count (layers b ! (length (layers b) - Suc (layer_ref s))) > 0") simp_all
  show "b' = b1 \<or> coalesce ops b1 = Inr b'"
    using assms(1) 1 2 unfolding Snapshot_destroy_def i_def b1_def Let_def
    by (simp split: if_splits)
qed

lemma collect_keeps_unpinned:
  "collect_layers_to_remove ls = Inr (removed, rest) \<Longrightarrow> snapshot_count (hd ls) = 0 \<Longrightarrow>
     snapshot_count (hd rest) = 0"
proof (induction ls arbitrary: removed rest rule: collect_layers_to_remove.induct)
  case 1
  then show ?case by simp
next
  case (2 l)
  then show ?case by (auto split: if_splits)
next
  case (3 l p ls)
  show ?case
  proof (cases "\<not> is_first l \<and> snapshot_count p = 0")
    case True
    with "3.prems" obtain r where r: "collect_layers_to_remove (p # ls) = Inr r"
      and "rest = snd r"
      by (cases "collect_layers_to_remove (p # ls)") auto
    with "3.IH" [OF True, of "fst r" "snd r"] True show ?thesis by simp
  next
    case False
    with "3.prems" show ?thesis by auto
  qed
qed


lemma coalesce_Inr:
  assumes "coalesce ops b = Inr b'"
  shows "\<exists>removed l ls. collect_layers_to_remove (layers b) = Inr (removed, l # ls) \<and>
           snapshot_count (top_layer b') = snapshot_count l"
proof (cases "collect_layers_to_remove (layers b)")
  case (Inl e)
  with assms show ?thesis by (simp add: coalesce_def)
next
  case (Inr r)
  obtain removed rest where r: "r = (removed, rest)" by (cases r)
  show ?thesis
  proof (cases rest)
    case Nil
    with assms Inr r show ?thesis by (simp add: coalesce_def)
  next
    case (Cons l ls)
    with assms Inr r have "b' = b\<lparr>top_layer :=
                    l\<lparr>size_m := size_m (top_layer b),
                      extent_m := extent_m (top_layer b),
                      patch := incorporate ops (patch l) (rev removed) True,
                      is_last := True\<rparr>,
                  lower_layers := ls\<rparr>"
      by (simp add: coalesce_def)
    then have "snapshot_count (top_layer b') = snapshot_count l" by simp
    with Inr r Cons show ?thesis by blast
  qed
qed


lemma Snapshot_destroy_unpinned:
  fixes ops :: "'p patch_ops" and b :: "'p TextBuffer"
  assumes "snapshot_count (top_layer b) = 0" and d: "Snapshot_destroy ops b s = Inr b'"
  shows "snapshot_count (top_layer b') = 0"
proof -
  define i where "i = length (layers b) - Suc (layer_ref s)"
  define b1 where
    "b1 = set_layers b ((layers b)[i := (layers b ! i)\<lparr>snapshot_count :=
                   snapshot_count (layers b ! i) - 1\<rparr>])"
  note D = Snapshot_destroy_Inr [OF d, folded i_def, folded b1_def]
  from D(2) assms(1) have "i \<noteq> 0"
    by (cases i) (auto simp: layers_def)
  then obtain j where j: "i = Suc j" by (cases i) auto
  have top1: "top_layer b1 = top_layer b"
    unfolding b1_def j by (simp add: set_layers_def layers_def)
  from D(3) show ?thesis
  proof
    assume "b' = b1"
    with top1 assms(1) show ?thesis by simp
  next
    assume "coalesce ops b1 = Inr b'"
    from coalesce_Inr [OF this] obtain removed l ls where
      c: "collect_layers_to_remove (layers b1) = Inr (removed, l # ls)"
      and b': "snapshot_count (top_layer b') = snapshot_count l"
      by blast
    have "snapshot_count (hd (layers b1)) = 0"
      using assms(1) top1 by (simp add: layers_def)
    with c have "snapshot_count (hd (l # ls)) = 0"
      by (rule collect_keeps_unpinned)
    with b' show ?thesis by simp
  qed
qed


lemma create_snapshot_unpinned:
  assumes "snapshot_count (top_layer b) = 0" and "create_snapshot ops b = Inr (s, b')"
  shows "snapshot_count (top_layer b') = 0"
proof (cases "\<not> is_first (top_layer b) \<and> get_change_count ops (patch (top_layer b)) = 0")
  case True
  with assms show ?thesis
    by (cases "lower_layers b") (auto simp: create_snapshot_def)
next
  case False
  with assms(2) have "top_layer b' = Layer_of_layer ops ((top_layer b)\<lparr>is_last := False\<rparr>)"
    by (auto simp: create_snapshot_def Let_def)
  then show ?thesis by (simp add: Layer_of_layer_def)
qed

lemma set_text_in_range_unpinned:
  assumes "snapshot_count (top_layer b) = 0" and "set_text_in_range ops r t b = Inr b'"
  shows "snapshot_count (top_layer b') = 0"
proof -
  from assms(2) obtain l where
    l: "Layer_set_text_in_range ops (base_text b) (top_layer b) (lower_layers b) r t = Inr l"
    and b': "b' = b\<lparr>top_layer := l\<rparr>"
    by (cases "Layer_set_text_in_range ops (base_text b) (top_layer b) (lower_layers b) r t")
       (auto simp: set_text_in_range_def)
  from l have "snapshot_count l = snapshot_count (top_layer b)"
    unfolding Layer_set_text_in_range_def
    by (cases "Layer_clip_position ops (base_text b) (top_layer b # lower_layers b) (range_start r)";
        cases "Layer_clip_position ops (base_text b) (top_layer b # lower_layers b) (range_end r)")
       (auto simp: Let_def)
  with b' assms(1) show ?thesis by simp
qed


lemma reachable_top_unpinned:
  "reachable ops b \<Longrightarrow> snapshot_count (top_layer b) = 0"
proof (induction rule: reachable.induct)
  case (new t)
  then show ?case by (simp add: TextBuffer_new_def Layer_of_text_def)
next
  case (edit b r t b')
  then show ?case by (auto dest: set_text_in_range_unpinned)
next
  case (snapshot b s b')
  then show ?case by (auto dest: create_snapshot_unpinned)
next
  case (destroy b s b')
  then show ?case by (auto dest: Snapshot_destroy_unpinned)
next
  case (reset b t)
  then show ?case by (simp add: reset_base_text_def)
next
  case (flush b ok b')
  then show ?case
    by (cases "apply_changes (base_text b) (get_changes ops (patch (top_layer b)))")
       (auto simp: flush_outstanding_changes_def split: if_splits)
next
  case (deserialize b p n e)
  then show ?case by simp
qed

text \<open>
  C8. \<open>reset_base_text\<close> returns true and replaces the base text whenever the top layer
  is the first layer, whatever its \<open>snapshot_count\<close>, which stays as it was; a snapshot
  that pins that layer then reads the new base text: its size, its extent and, when the
  cleared patch holds no change, its text. (No buffer the interface produces has a
  pinned top layer, \<open>reachable_top_unpinned\<close>: the function itself does not rule it out.)
\<close>

theorem reset_base_text_ignores_pins:
  fixes ops :: "'p patch_ops" and b :: "'p TextBuffer"
  assumes "is_first (top_layer b)"
    and "layer_ref s = length (lower_layers b)"
    and "\<And>p. find_change_for_new_position ops (patch_clear ops (patch (top_layer b))) p = None"
    and "\<And>p. change_for_new_position ops (patch_clear ops (patch (top_layer b))) p = None"
    and "\<And>p. find_change_ending_after_new_position ops
                (patch_clear ops (patch (top_layer b))) p = None"
    and "length t < 2 ^ 32"
    and "0 < fuel"
  shows "fst (reset_base_text ops t b) \<and>
         base_text (snd (reset_base_text ops t b)) = t \<and>
         snapshot_count (top_layer (snd (reset_base_text ops t b))) =
           snapshot_count (top_layer b) \<and>
         Snapshot_size (snd (reset_base_text ops t b)) s = Inr (Text_size t) \<and>
         Snapshot_extent (snd (reset_base_text ops t b)) s = Inr (Text_extent t) \<and>
         Snapshot_text ops fuel (snd (reset_base_text ops t b)) s = Inr t"
proof -
  let ?l = "(top_layer b)\<lparr>patch := patch_clear ops (patch (top_layer b)),
              extent_m := Text_extent t, size_m := Text_size t\<rparr>"
  have r: "reset_base_text ops t b = (True, b\<lparr>top_layer := ?l, base_text := t\<rparr>)"
    using assms(1) by (simp add: reset_base_text_def)
  have sl: "snapshot_layers (b\<lparr>top_layer := ?l, base_text := t\<rparr>) s = ?l # lower_layers b"
    using assms(2) by (simp add: snapshot_layers_def layers_def)
  have "Layer_text_in_range ops fuel t (?l # lower_layers b) (Range (Point 0 0) (extent_m ?l)) =
          Inr t"
    by (rule unchanged_first_layer_text) (use assms in simp_all)
  then show ?thesis
    by (simp add: r sl Snapshot_size_def Snapshot_extent_def Snapshot_text_def)
qed


theorem reset_base_text_ignores_pins_witness:
  "is_first (top_layer pinned_first_buffer) \<and>
   snapshot_count (top_layer pinned_first_buffer) = 1 \<and>
   reset_base_text term_ops text_BB pinned_first_buffer =
     (True, \<lparr>base_text = text_BB,
             top_layer = \<lparr>patch = Changes [], extent_m = Point 0 2, size_m = 2,
                          snapshot_count = 1, is_first = True, is_last = True\<rparr>,
             lower_layers = []\<rparr>) \<and>
   Snapshot_text term_ops 1 (snd (reset_base_text term_ops text_BB pinned_first_buffer))
     (Snapshot 0) = Inr text_BB"
proof -
  have r: "reset_base_text term_ops text_BB pinned_first_buffer =
     (True, \<lparr>base_text = text_BB,
             top_layer = \<lparr>patch = Changes [], extent_m = Point 0 2, size_m = 2,
                          snapshot_count = 1, is_first = True, is_last = True\<rparr>,
             lower_layers = []\<rparr>)"
    by (simp add: reset_base_text_def pinned_first_buffer_def term_ops_def Text_extent_def
          Text_size_def text_BB_def line_breaks_def last_row_length_def LF_def)
  have h: "is_first (top_layer pinned_first_buffer)"
    "layer_ref (Snapshot 0) = length (lower_layers pinned_first_buffer)"
    "snapshot_count (top_layer pinned_first_buffer) = 1"
    by (simp_all add: pinned_first_buffer_def)
  have n: "\<And>p. find_change_for_new_position term_ops
                 (patch_clear term_ops (patch (top_layer pinned_first_buffer))) p = None"
    "\<And>p. change_for_new_position term_ops
                 (patch_clear term_ops (patch (top_layer pinned_first_buffer))) p = None"
    "\<And>p. find_change_ending_after_new_position term_ops
                 (patch_clear term_ops (patch (top_layer pinned_first_buffer))) p = None"
    by (simp_all add: term_ops_def preceding_change_of_def change_ending_after_def)
  have len: "length text_BB < 2 ^ 32" "0 < (1::nat)"
    by (simp_all add: text_BB_def)
  from reset_base_text_ignores_pins [OF h(1) h(2) n len]
  have "Snapshot_text term_ops 1 (snd (reset_base_text term_ops text_BB pinned_first_buffer))
          (Snapshot 0) = Inr text_BB"
    by simp
  then show ?thesis using h r by simp
qed

text \<open>
  What \<open>position_for_offset\<close> returns for an offset past the chunks: the callback never
  stops, and the point is the sum of the extents of the chunks of \<open>[(0,0), extent()]\<close>.
\<close>

lemma position_for_offset_past_chunks:
  fixes ops :: "'p patch_ops" and b :: "'p TextBuffer"
  assumes "TextBuffer_chunks ops fuel b = Inr cs"
    and "sum_list (map (\<lambda>c. unat (slice_size c)) cs) < unat goal"
  shows "TextBuffer_position_for_offset ops fuel b goal =
           Inr (foldl traverse (Point 0 0) (map slice_extent cs))"
proof -
  let ?collect = "\<lambda>s res. (False, res @ [s :: TextSlice])"
  from assms(1) obtain r where
    r: "Layer_for_each_chunk_in_range ops fuel (base_text b) (layers b) (Point 0 0)
          (TextBuffer_extent b) ?collect [] = Inr r" and "snd r = cs"
    by (auto simp: TextBuffer_chunks_def Layer_chunks_in_range_def bind_def split: sum.splits)
  from Layer_for_each_collect [where 'a = "Point \<times> u32", OF r] \<open>snd r = cs\<close> have
    run: "Layer_for_each_chunk_in_range ops fuel (base_text b) (layers b) (Point 0 0)
            (TextBuffer_extent b) (position_for_offset_callback goal) (Point 0 0, 0) =
          Inr (run_callback (position_for_offset_callback goal) cs (Point 0 0, 0))"
    by auto
  have "sum_list (map (\<lambda>c. unat (slice_size c)) cs) + unat (0 :: u32) < unat goal"
    using assms(2) by simp
  from run_position_for_offset_past [OF this, of "Point 0 0"] run
  show ?thesis
    by (simp add: TextBuffer_position_for_offset_def Layer_position_for_offset_def
          layers_def TextBuffer_extent_def)
qed

text \<open>
  C6 fails after an edit whose range ends past the end of the buffer.
  \<open>Layer::set_text_in_range\<close> clips both ends of the range and takes the new size from
  the clipped offsets, but computes \<open>extent_\<close> from the unclipped \<open>old_range.end\<close>. After
  \<open>set_text_in_range({(0,1), (0,10)}, "X")\<close> on \<open>abc\<close> the text is \<open>aX\<close> and \<open>size()\<close> is 2,
  but \<open>extent()\<close> is \<open>(0, 4294967291)\<close>, and \<open>position_for_offset(3)\<close> returns \<open>(0,2)\<close>, the
  end of the text, and not \<open>extent()\<close>.
\<close>

theorem position_for_offset_past_size_misses_extent:
  "overlong_edit = Inr overlong_buffer \<and>
   TextBuffer_text term_ops 3 overlong_buffer = Inr [0x61, 0x58] \<and>
   TextBuffer_size overlong_buffer = 2 \<and>
   TextBuffer_extent overlong_buffer = Point 0 4294967291 \<and>
   TextBuffer_position_for_offset term_ops 3 overlong_buffer 3 = Inr (Point 0 2)"
proof -
  have "overlong_edit = Inr overlong_buffer"
    by code_simp
  moreover have "TextBuffer_text term_ops 3 overlong_buffer = Inr [0x61, 0x58]"
    by code_simp
  moreover have "TextBuffer_size overlong_buffer = 2"
    by code_simp
  moreover have "TextBuffer_extent overlong_buffer = Point 0 4294967291"
    by code_simp
  moreover have "TextBuffer_position_for_offset term_ops 3 overlong_buffer 3 = Inr (Point 0 2)"
    by code_simp
  ultimately show ?thesis by simp
qed




section \<open>Properties of snapshots\<close>

lemma collect_stops:
  assumes "\<forall>u \<in> set removed. \<not> is_first u"
    and "\<forall>u \<in> set (tl (removed @ [l])). snapshot_count u = 0"
    and "is_first l \<or> (below \<noteq> [] \<and> snapshot_count (hd below) \<noteq> 0)"
  shows "collect_layers_to_remove (removed @ l # below) = Inr (removed, l # below)"
  using assms
proof (induction removed)
  case Nil
  then show ?case by (cases below) auto
next
  case (Cons u us)
  then show ?case by (cases us) (auto simp: bind_def)
qed

lemma incorporate_enumerate:
  "incorporate ops pt us (even n) =
     foldl (\<lambda>acc (k, u). patch_combine ops acc (patch u) (even k)) pt (List.enumerate n us)"
proof (induction us arbitrary: pt n)
  case Nil
  then show ?case by simp
next
  case (Cons u us)
  from Cons.IH [of "patch_combine ops pt (patch u) (even n)" "Suc n"]
  show ?case by simp
qed

lemma coalesce_folds:
  assumes "collect_layers_to_remove (layers b) = Inr (removed, l # below)"
  shows "coalesce ops b =
           Inr (b\<lparr>top_layer :=
                    l\<lparr>size_m := size_m (top_layer b), extent_m := extent_m (top_layer b),
                      patch := foldl (\<lambda>acc (k, u). patch_combine ops acc (patch u) (even k))
                                 (patch l) (List.enumerate 0 (rev removed)),
                      is_last := True\<rparr>,
                  lower_layers := below\<rparr>)"
  using assms incorporate_enumerate [of ops "patch l" "rev removed" 0]
  by (simp add: coalesce_def)

lemma three_layers_reached: "three_layers_history = Inr (Snapshot 1, three_layers)"
  by code_simp

text \<open>
  C1, as the code has it. When the last snapshot of a layer is destroyed and no snapshot
  pins the top layer, the layers \<open>removed\<close> above the surviving layer \<open>l\<close> (listed from
  the top layer down) are folded into \<open>l\<close> one at a time from the layer directly above
  \<open>l\<close> up to the top layer: fold number \<open>k\<close>, counted from 0, combines the patch of
  \<open>rev removed ! k\<close> with \<open>left_to_right = even k\<close>. The folded layers leave the chain,
  and \<open>l\<close> takes the size and extent of the old top layer and becomes the top layer.
\<close>

theorem coalescence_folds_upwards:
  fixes b :: "'p TextBuffer"
  assumes "layer_ref s < length (layers b)"
    and "i = length (layers b) - Suc (layer_ref s)"
    and "snapshot_count (layers b ! i) = 1"
    and "b1 = set_layers b ((layers b)[i := (layers b ! i)\<lparr>snapshot_count := 0\<rparr>])"
    and "layers b1 = removed @ l # below"
    and "\<forall>u \<in> set (removed @ [l]). snapshot_count u = 0"
    and "\<forall>u \<in> set removed. \<not> is_first u"
    and "is_first l \<or> (below \<noteq> [] \<and> snapshot_count (hd below) \<noteq> 0)"
  shows "Snapshot_destroy ops b s =
           Inr (b1\<lparr>top_layer :=
                    l\<lparr>size_m := size_m (top_layer b1), extent_m := extent_m (top_layer b1),
                      patch := foldl (\<lambda>acc (k, u). patch_combine ops acc (patch u) (even k))
                                 (patch l) (List.enumerate 0 (rev removed)),
                      is_last := True\<rparr>,
                  lower_layers := below\<rparr>)"
proof -
  have top0: "snapshot_count (top_layer b1) = 0"
    using assms(5,6) by (cases removed) (auto simp: layers_def)
  have "\<forall>u \<in> set (tl (removed @ [l])). snapshot_count u = 0"
    using assms(6) by (cases removed) auto
  then have "collect_layers_to_remove (layers b1) = Inr (removed, l # below)"
    using collect_stops [OF assms(7) _ assms(8)] assms(5) by simp
  then have "coalesce ops b1 = Inr (b1\<lparr>top_layer :=
                    l\<lparr>size_m := size_m (top_layer b1), extent_m := extent_m (top_layer b1),
                      patch := foldl (\<lambda>acc (k, u). patch_combine ops acc (patch u) (even k))
                                 (patch l) (List.enumerate 0 (rev removed)),
                      is_last := True\<rparr>,
                  lower_layers := below\<rparr>)"
    by (rule coalesce_folds)
  then show ?thesis
    using assms(1-4) top0 by (simp add: Snapshot_destroy_def Let_def)
qed

theorem coalescence_folds_upwards_witness:
  "layers three_layers = [upper_layer, middle_layer, first_layer] \<and>
   snapshot_count middle_layer = 1 \<and> is_first first_layer \<and>
   Snapshot_destroy term_ops three_layers (Snapshot 1) =
     Inr \<lparr>base_text = text_abc,
          top_layer =
            \<lparr>patch = Combined (Combined (Changes []) (Changes [change_BB]) True)
                       (Changes [change_bang]) False,
             extent_m = Point 0 5, size_m = 5, snapshot_count = 0,
             is_first = True, is_last = True\<rparr>,
          lower_layers = []\<rparr>"
proof -
  let ?b1 = "set_layers three_layers
               ((layers three_layers)[1 := (layers three_layers ! 1)\<lparr>snapshot_count := 0\<rparr>])"
  have h1: "layer_ref (Snapshot 1) < length (layers three_layers)"
    and h2: "(1::nat) = length (layers three_layers) - Suc (layer_ref (Snapshot 1))"
    and h3: "snapshot_count (layers three_layers ! 1) = 1"
    and h5: "layers ?b1 = [upper_layer, middle_layer\<lparr>snapshot_count := 0\<rparr>] @ first_layer # []"
    by (simp_all add: layers_def three_layers_def set_layers_def middle_layer_def)
  have h6: "\<forall>u \<in> set ([upper_layer, middle_layer\<lparr>snapshot_count := 0\<rparr>] @ [first_layer]).
              snapshot_count u = 0"
    and h7: "\<forall>u \<in> set [upper_layer, middle_layer\<lparr>snapshot_count := 0\<rparr>]. \<not> is_first u"
    and h8: "is_first first_layer \<or> ([] \<noteq> [] \<and> snapshot_count (hd []) \<noteq> (0::u32))"
    by (simp_all add: upper_layer_def middle_layer_def first_layer_def)
  from coalescence_folds_upwards [OF h1 h2 h3 refl h5 h6 h7 h8, of term_ops]
  have "Snapshot_destroy term_ops three_layers (Snapshot 1) =
     Inr \<lparr>base_text = text_abc,
          top_layer =
            \<lparr>patch = Combined (Combined (Changes []) (Changes [change_BB]) True)
                       (Changes [change_bang]) False,
             extent_m = Point 0 5, size_m = 5, snapshot_count = 0,
             is_first = True, is_last = True\<rparr>,
          lower_layers = []\<rparr>"
    by (simp add: layers_def three_layers_def set_layers_def middle_layer_def upper_layer_def
          first_layer_def term_ops_def enumerate_eq_zip upt_rec)
  then show ?thesis
    by (simp add: layers_def three_layers_def middle_layer_def first_layer_def)
qed

text \<open>
  C1, as the spec states it (outermost to innermost: the top layer first), fails on the
  three-layer buffer: the result is not the fold that starts with the top layer's patch.
\<close>

theorem fold_order_counterexample:
  "Snapshot_destroy term_ops three_layers (Snapshot 1) \<noteq>
     Inr \<lparr>base_text = text_abc,
          top_layer =
            \<lparr>patch = patch_combine term_ops
                       (patch_combine term_ops (patch first_layer) (patch upper_layer) True)
                       (patch middle_layer) False,
             extent_m = Point 0 5, size_m = 5, snapshot_count = 0,
             is_first = True, is_last = True\<rparr>,
          lower_layers = []\<rparr>"
  by (simp add: Snapshot_destroy_def coalesce_def layers_def three_layers_def set_layers_def
        middle_layer_def upper_layer_def first_layer_def term_ops_def Let_def
        change_BB_def change_bang_def)





lemma clip_position_T_snapshot_count [simp]:
  "clip_position_T ops pv (l\<lparr>snapshot_count := n\<rparr>) = clip_position_T ops pv l"
  by (rule ext) (simp add: clip_position_T_def)

lemma previous_view_snapshot_count [simp]:
  "previous_view ops bt (l\<lparr>snapshot_count := n\<rparr>) ls = previous_view ops bt l ls"
  by (simp add: previous_view_def)

lemma Layer_for_each_snapshot_count [simp]:
  "Layer_for_each_chunk_in_range ops fuel bt (l\<lparr>snapshot_count := n\<rparr> # ls) =
     Layer_for_each_chunk_in_range ops fuel bt (l # ls)"
  by (intro ext) (simp add: for_each_chunk_in_range_T_def)


lemma Layer_clip_position_snapshot_count [simp]:
  "Layer_clip_position ops bt (l\<lparr>snapshot_count := n\<rparr> # ls) = Layer_clip_position ops bt (l # ls)"
  by (simp add: Layer_clip_position_Cons)


text \<open>
  Where the conditions hold. Clearing \<open>is_last\<close> keeps \<open>clip_position\<close> at every point
  at which the two lookups return the same change; and a first layer without changes
  clips every point to a point it clips to itself.
\<close>

lemma pin_keeps_clip_same_lookup:
  assumes "change_for_new_position ops (patch (top_layer b)) q =
           find_change_for_new_position ops (patch (top_layer b)) q"
  shows "pin_keeps_clip ops b q"
  using assms
  by (simp add: pin_keeps_clip_def Layer_clip_position_Cons clip_position_T_def
        previous_view_def)

lemma clip_is_fixed_unchanged_first_layer:
  assumes "is_first l" and "no_change_in ops (patch l)" and "length bt < 2 ^ 32"
  shows "clip_is_fixed ops bt (l # ls) q"
proof -
  from assms(2) have "find_change_for_new_position ops (patch l) p = None"
    "change_for_new_position ops (patch l) p = None" for p
    by (simp_all add: no_change_in_def)
  with assms(1) have "Layer_clip_position ops bt (l # ls) p = Inr (Text_clip_position bt p)" for p
    by (intro unchanged_first_layer_clip)
  with Text_clip_position_idem [OF assms(3)] show ?thesis
    by (simp add: clip_is_fixed_def)
qed





end
